theory Spec2Isabelle
  imports Main
begin

section \<open>Python values used by the TLD plugin\<close>

text \<open>
  The plugin \<^verbatim>\<open>sopel/modules/tld.py\<close> runs on Python 3 strings, which are sequences
  of Unicode code points: the placeholder of an absent value (an em dash, U+2014) is ONE character
  of a cell, and \<^verbatim>\<open>strip\<close>, \<^verbatim>\<open>lower\<close> and the regular expressions work on
  code points. A string is therefore a list of code points; \<open>ascii\<close> writes an ASCII
  literal of the source.
\<close>

type_synonym ustr = "nat list"

definition ascii :: "string \<Rightarrow> ustr" where
  "ascii s = map of_char s"

text \<open>
  \<^verbatim>\<open>str.isspace\<close> per character, which is also what \<^verbatim>\<open>\s\<close> matches in a
  \<^verbatim>\<open>str\<close> pattern and what \<^verbatim>\<open>str.strip()\<close> removes: U+0009..U+000D,
  U+001C..U+0020, U+0085, U+00A0, U+1680, U+2000..U+200A, U+2028, U+2029, U+202F, U+205F,
  U+3000.
\<close>

definition isspace :: "nat \<Rightarrow> bool" where
  "isspace c =
     ((9 \<le> c \<and> c \<le> 13) \<or> (28 \<le> c \<and> c \<le> 32) \<or> c = 133 \<or> c = 160 \<or> c = 5760 \<or>
      (8192 \<le> c \<and> c \<le> 8202) \<or> c = 8232 \<or> c = 8233 \<or> c = 8239 \<or> c = 8287 \<or>
      c = 12288)"

text \<open>The character class \<^verbatim>\<open>[A-Za-z0-9]\<close> of \<^verbatim>\<open>r_idn\<close>.\<close>

definition isalnum_ascii :: "nat \<Rightarrow> bool" where
  "isalnum_ascii c = ((65 \<le> c \<and> c \<le> 90) \<or> (97 \<le> c \<and> c \<le> 122) \<or> (48 \<le> c \<and> c \<le> 57))"

text \<open>\<^verbatim>\<open>s.strip()\<close> and \<^verbatim>\<open>s.strip(chars)\<close>: both ends.\<close>

definition strip :: "ustr \<Rightarrow> ustr" where
  "strip s = rev (dropWhile isspace (rev (dropWhile isspace s)))"

definition strip_chars :: "ustr \<Rightarrow> ustr \<Rightarrow> ustr" where
  "strip_chars chars s =
     rev (dropWhile (\<lambda>c. c \<in> set chars) (rev (dropWhile (\<lambda>c. c \<in> set chars) s)))"

definition startswith :: "ustr \<Rightarrow> ustr \<Rightarrow> bool" where
  "startswith s p = (take (length p) s = p)"

text \<open>\<^verbatim>\<open>sub in s\<close> on strings.\<close>

fun contains :: "ustr \<Rightarrow> ustr \<Rightarrow> bool" where
  "contains sub [] = (sub = [])"
| "contains sub (c # cs) = (startswith (c # cs) sub \<or> contains sub cs)"

text \<open>
  \<^verbatim>\<open>s.replace(old, new)\<close>: the occurrences of \<open>old\<close> are found from the left and do
  not overlap; an empty \<open>old\<close> matches before every character and at the end.
\<close>

fun replace :: "ustr \<Rightarrow> ustr \<Rightarrow> ustr \<Rightarrow> ustr" where
  "replace old new [] = (if old = [] then new else [])"
| "replace old new (c # cs) =
     (if old = [] then new @ c # replace old new cs
      else if startswith (c # cs) old then new @ replace old new (drop (length old - 1) cs)
      else c # replace old new cs)"

text \<open>\<^verbatim>\<open>sep.join(items)\<close>.\<close>

fun join :: "ustr \<Rightarrow> ustr list \<Rightarrow> ustr" where
  "join sep [] = []"
| "join sep [x] = x"
| "join sep (x # y # ys) = x @ sep @ join sep (y # ys)"

text \<open>
  The truth value of \<^verbatim>\<open>key\<close> in \<^verbatim>\<open>not key\<close>, \<^verbatim>\<open>any([key, idn_key])\<close> and
  \<^verbatim>\<open>if key:\<close>, for a variable that holds \<^verbatim>\<open>None\<close> or a string.
\<close>

fun truthy :: "ustr option \<Rightarrow> bool" where
  "truthy None = False"
| "truthy (Some s) = (s \<noteq> [])"

text \<open>
  A \<^verbatim>\<open>dict\<close> keeps its keys in insertion order, and storing under a key it already
  has keeps that key's place: an association list with distinct keys.
\<close>

type_synonym ('k, 'v) dict = "('k \<times> 'v) list"

fun dict_set :: "'k \<Rightarrow> 'v \<Rightarrow> ('k, 'v) dict \<Rightarrow> ('k, 'v) dict" where
  "dict_set k v [] = [(k, v)]"
| "dict_set k v (p # d) = (if fst p = k then (k, v) # d else p # dict_set k v d)"

definition dict_get :: "('k, 'v) dict \<Rightarrow> 'k \<Rightarrow> 'v option" where
  "dict_get d k = map_of d k"

text \<open>\<^verbatim>\<open>dict(pairs)\<close>: the pairs are stored from left to right.\<close>

definition dict_of :: "('k \<times> 'v) list \<Rightarrow> ('k, 'v) dict" where
  "dict_of pairs = foldl (\<lambda>d p. dict_set (fst p) (snd p) d) [] pairs"

text \<open>The exceptions that the modelled code can raise.\<close>

datatype error = TypeError | IndexError | KeyError | ValueError | UnicodeError

section \<open>The two regular expressions\<close>

text \<open>
  \<^verbatim>\<open>r_tld = re.compile(r'^\.(\S+)')\<close> and
  \<^verbatim>\<open>r_idn = re.compile(r'^(xn--[A-Za-z0-9]+)')\<close>, used through \<^verbatim>\<open>match\<close> and
  \<^verbatim>\<open>group(1)\<close>: \<open>None\<close> when the cell does not match, the first group otherwise.
  Both repetitions are greedy and nothing follows them, so the group is the longest run.
\<close>

definition r_tld :: "ustr \<Rightarrow> ustr option" where
  "r_tld cell =
     (case cell of
        [] \<Rightarrow> None
      | c # rest \<Rightarrow>
          if c = 46 \<and> takeWhile (\<lambda>x. \<not> isspace x) rest \<noteq> []
          then Some (takeWhile (\<lambda>x. \<not> isspace x) rest) else None)"

definition r_idn :: "ustr \<Rightarrow> ustr option" where
  "r_idn cell =
     (if startswith cell (ascii ''xn--'') \<and> takeWhile isalnum_ascii (drop 4 cell) \<noteq> []
      then Some (ascii ''xn--'' @ takeWhile isalnum_ascii (drop 4 cell)) else None)"

section \<open>Timestamps\<close>

text \<open>
  A naive \<^verbatim>\<open>datetime\<close> and the \<^verbatim>\<open>timedelta\<close> that the difference of two of them
  is, after CPython's \<^verbatim>\<open>datetime.py\<close>: the difference is taken on proleptic Gregorian
  ordinals and seconds of the day, and the constructor of \<^verbatim>\<open>timedelta\<close> normalises it
  so that \<open>0 \<le> seconds < 86400\<close> and \<open>0 \<le> microseconds < 1000000\<close> (its \<open>days\<close> is
  the floor of the difference in days).
\<close>

record datetime =
  year :: int
  month :: int
  day :: int
  hour :: int
  minute :: int
  second :: int
  microsecond :: int

record timedelta =
  days :: int
  seconds :: int
  microseconds :: int

definition is_leap :: "int \<Rightarrow> bool" where
  "is_leap y = (y mod 4 = 0 \<and> (y mod 100 \<noteq> 0 \<or> y mod 400 = 0))"

definition days_before_year :: "int \<Rightarrow> int" where
  "days_before_year y = (y - 1) * 365 + (y - 1) div 4 - (y - 1) div 100 + (y - 1) div 400"

definition days_in_month :: "int \<Rightarrow> int \<Rightarrow> int" where
  "days_in_month y m =
     (if m = 2 then (if is_leap y then 29 else 28)
      else if m = 4 \<or> m = 6 \<or> m = 9 \<or> m = 11 then 30 else 31)"

definition days_before_month :: "int \<Rightarrow> int \<Rightarrow> int" where
  "days_before_month y m =
     (if m = 1 then 0 else if m = 2 then 31 else if m = 3 then 59 else if m = 4 then 90
      else if m = 5 then 120 else if m = 6 then 151 else if m = 7 then 181
      else if m = 8 then 212 else if m = 9 then 243 else if m = 10 then 273
      else if m = 11 then 304 else 334)
     + (if m > 2 \<and> is_leap y then 1 else 0)"

definition toordinal :: "datetime \<Rightarrow> int" where
  "toordinal d = days_before_year (year d) + days_before_month (year d) (month d) + day d"

definition valid_datetime :: "datetime \<Rightarrow> bool" where
  "valid_datetime d =
     (1 \<le> year d \<and> year d \<le> 9999 \<and> 1 \<le> month d \<and> month d \<le> 12 \<and>
      1 \<le> day d \<and> day d \<le> days_in_month (year d) (month d) \<and>
      0 \<le> hour d \<and> hour d \<le> 23 \<and> 0 \<le> minute d \<and> minute d \<le> 59 \<and>
      0 \<le> second d \<and> second d \<le> 59 \<and> 0 \<le> microsecond d \<and> microsecond d \<le> 999999)"

definition new_timedelta :: "int \<Rightarrow> int \<Rightarrow> int \<Rightarrow> timedelta" where
  "new_timedelta d s us =
     \<lparr>days = d + (s + us div 1000000) div 86400,
      seconds = (s + us div 1000000) mod 86400,
      microseconds = us mod 1000000\<rparr>"

definition seconds_of_day :: "datetime \<Rightarrow> int" where
  "seconds_of_day d = second d + minute d * 60 + hour d * 3600"

text \<open>\<^verbatim>\<open>now - then\<close>.\<close>

definition datetime_sub :: "datetime \<Rightarrow> datetime \<Rightarrow> timedelta" where
  "datetime_sub a b =
     new_timedelta (toordinal a - toordinal b) (seconds_of_day a - seconds_of_day b)
       (microsecond a - microsecond b)"

text \<open>
  \<^verbatim>\<open>datetime.strptime(s, DATE_FORMAT)\<close> for
  \<^verbatim>\<open>DATE_FORMAT = '%Y-%m-%d %H:%M:%S'\<close>. The library turns the format into the
  regular expression
  \<^verbatim>\<open>(\d\d\d\d)-(1[0-2]|0[1-9]|[1-9])-(3[0-1]|[1-2]\d|0[1-9]|[1-9]| [1-9])\s+(2[0-3]|[0-1]\d|\d):([0-5]\d|\d):(6[0-1]|[0-5]\d|\d)\<close>,
  matches it at the start of the string, raises \<^verbatim>\<open>ValueError\<close> when it does not
  match or when text remains, reads each group with \<^verbatim>\<open>int\<close> and builds the
  \<^verbatim>\<open>datetime\<close>, which raises \<^verbatim>\<open>ValueError\<close> for a date or time out of
  range. Every field is followed by a character no alternative of the field can take, so
  the first alternative that matches is the one the match keeps.

  A class such as \<^verbatim>\<open>[0-2]\<close> holds ASCII digits only. \<^verbatim>\<open>\d\<close> matches every
  Unicode decimal digit (category Nd) and \<^verbatim>\<open>int\<close> reads its value: the ASCII
  digits are written out below, no other ASCII character is a digit, and the value of a
  decimal digit beyond ASCII is what the Unicode database gives, the parameter \<open>ud\<close>
  (\<open>None\<close> for a character that is no decimal digit).
\<close>

definition decimal_digit :: "(nat \<Rightarrow> int option) \<Rightarrow> nat \<Rightarrow> int option" where
  "decimal_digit ud c =
     (if 48 \<le> c \<and> c \<le> 57 then Some (int c - 48) else if c < 128 then None else ud c)"

definition ascii_digit :: "nat \<Rightarrow> nat \<Rightarrow> nat \<Rightarrow> int option" where
  "ascii_digit lo hi c =
     (if lo \<le> c \<and> c \<le> hi \<and> 48 \<le> c \<and> c \<le> 57 then Some (int c - 48) else None)"

definition two_digits :: "(nat \<Rightarrow> int option) \<Rightarrow> (nat \<Rightarrow> int option) \<Rightarrow> ustr \<Rightarrow> (int \<times> ustr) option" where
  "two_digits p q s =
     (case s of
        a # b # rest \<Rightarrow>
          Option.bind (p a) (\<lambda>x. Option.bind (q b) (\<lambda>y. Some (10 * x + y, rest)))
      | _ \<Rightarrow> None)"

definition one_digit :: "(nat \<Rightarrow> int option) \<Rightarrow> ustr \<Rightarrow> (int \<times> ustr) option" where
  "one_digit p s =
     (case s of a # rest \<Rightarrow> Option.bind (p a) (\<lambda>x. Some (x, rest)) | [] \<Rightarrow> None)"

definition orelse :: "'a option \<Rightarrow> 'a option \<Rightarrow> 'a option" where
  "orelse x y = (case x of Some v \<Rightarrow> Some v | None \<Rightarrow> y)"

definition literal :: "nat \<Rightarrow> ustr \<Rightarrow> ustr option" where
  "literal c s = (case s of a # rest \<Rightarrow> if a = c then Some rest else None | [] \<Rightarrow> None)"

definition spaces :: "ustr \<Rightarrow> ustr option" where
  "spaces s = (case s of a # rest \<Rightarrow> if isspace a then Some (dropWhile isspace rest) else None
               | [] \<Rightarrow> None)"

definition field_Y :: "(nat \<Rightarrow> int option) \<Rightarrow> ustr \<Rightarrow> (int \<times> ustr) option" where
  "field_Y ud s =
     (case s of
        a # b # c # d # rest \<Rightarrow>
          Option.bind (decimal_digit ud a) (\<lambda>w.
          Option.bind (decimal_digit ud b) (\<lambda>x.
          Option.bind (decimal_digit ud c) (\<lambda>y.
          Option.bind (decimal_digit ud d) (\<lambda>z.
            Some (1000 * w + 100 * x + 10 * y + z, rest)))))
      | _ \<Rightarrow> None)"

definition field_m :: "ustr \<Rightarrow> (int \<times> ustr) option" where
  "field_m s =
     orelse (two_digits (ascii_digit 49 49) (ascii_digit 48 50) s)
       (orelse (two_digits (ascii_digit 48 48) (ascii_digit 49 57) s)
          (one_digit (ascii_digit 49 57) s))"

definition field_d :: "(nat \<Rightarrow> int option) \<Rightarrow> ustr \<Rightarrow> (int \<times> ustr) option" where
  "field_d ud s =
     orelse (two_digits (ascii_digit 51 51) (ascii_digit 48 49) s)
       (orelse (two_digits (ascii_digit 49 50) (decimal_digit ud) s)
          (orelse (two_digits (ascii_digit 48 48) (ascii_digit 49 57) s)
             (orelse (one_digit (ascii_digit 49 57) s)
                (case literal 32 s of Some rest \<Rightarrow> one_digit (ascii_digit 49 57) rest
                 | None \<Rightarrow> None))))"

definition field_H :: "(nat \<Rightarrow> int option) \<Rightarrow> ustr \<Rightarrow> (int \<times> ustr) option" where
  "field_H ud s =
     orelse (two_digits (ascii_digit 50 50) (ascii_digit 48 51) s)
       (orelse (two_digits (ascii_digit 48 49) (decimal_digit ud) s)
          (one_digit (decimal_digit ud) s))"

definition field_M :: "(nat \<Rightarrow> int option) \<Rightarrow> ustr \<Rightarrow> (int \<times> ustr) option" where
  "field_M ud s =
     orelse (two_digits (ascii_digit 48 53) (decimal_digit ud) s) (one_digit (decimal_digit ud) s)"

definition field_S :: "(nat \<Rightarrow> int option) \<Rightarrow> ustr \<Rightarrow> (int \<times> ustr) option" where
  "field_S ud s =
     orelse (two_digits (ascii_digit 54 54) (ascii_digit 48 49) s)
       (orelse (two_digits (ascii_digit 48 53) (decimal_digit ud) s)
          (one_digit (decimal_digit ud) s))"

definition match_date_format :: "(nat \<Rightarrow> int option) \<Rightarrow> ustr \<Rightarrow> (datetime \<times> ustr) option" where
  "match_date_format ud s0 =
     Option.bind (field_Y ud s0) (\<lambda>(Y, s1).
     Option.bind (literal 45 s1) (\<lambda>s2.
     Option.bind (field_m s2) (\<lambda>(m, s3).
     Option.bind (literal 45 s3) (\<lambda>s4.
     Option.bind (field_d ud s4) (\<lambda>(d, s5).
     Option.bind (spaces s5) (\<lambda>s6.
     Option.bind (field_H ud s6) (\<lambda>(H, s7).
     Option.bind (literal 58 s7) (\<lambda>s8.
     Option.bind (field_M ud s8) (\<lambda>(M, s9).
     Option.bind (literal 58 s9) (\<lambda>s10.
     Option.bind (field_S ud s10) (\<lambda>(S, s11).
       Some (\<lparr>year = Y, month = m, day = d, hour = H, minute = M, second = S,
              microsecond = 0\<rparr>, s11))))))))))))"

definition strptime :: "(nat \<Rightarrow> int option) \<Rightarrow> ustr \<Rightarrow> error + datetime" where
  "strptime ud s =
     (case match_date_format ud s of
        None \<Rightarrow> Inl ValueError
      | Some (d, rest) \<Rightarrow>
          if rest \<noteq> [] then Inl ValueError
          else if valid_datetime d then Inr d else Inl ValueError)"

text \<open>
  \<^verbatim>\<open>text.splitlines()\<close>: a line ends at \<^verbatim>\<open>\r\n\<close> or at one of the boundary
  characters; the line ends are dropped, and no empty line follows the last line end.
\<close>

definition linebreak :: "nat \<Rightarrow> bool" where
  "linebreak c = ((10 \<le> c \<and> c \<le> 13) \<or> (28 \<le> c \<and> c \<le> 30) \<or> c = 133 \<or> c = 8232 \<or> c = 8233)"

fun splitlines_from :: "ustr \<Rightarrow> ustr \<Rightarrow> ustr list" where
  "splitlines_from cur [] = (if cur = [] then [] else [rev cur])"
| "splitlines_from cur [c] = (if linebreak c then [rev cur] else [rev (c # cur)])"
| "splitlines_from cur (c # d # cs) =
     (if c = 13 \<and> d = 10 then rev cur # splitlines_from [] cs
      else if linebreak c then rev cur # splitlines_from [] (d # cs)
      else splitlines_from (c # cur) (d # cs))"

definition splitlines :: "ustr \<Rightarrow> ustr list" where
  "splitlines s = splitlines_from [] s"

section \<open>What the plugin takes from outside\<close>

text \<open>
  The events that \<^verbatim>\<open>html.parser.HTMLParser\<close> calls the handlers with, in document
  order: \<^verbatim>\<open>handle_starttag(tag, attrs)\<close> (an attribute without a value has the value
  \<^verbatim>\<open>None\<close>), \<^verbatim>\<open>handle_endtag(tag)\<close> and \<^verbatim>\<open>handle_data(data)\<close>.
\<close>

datatype html_event =
  StartTag ustr "(ustr \<times> ustr option) list"
| EndTag ustr
| Data ustr

text \<open>
  The parts of the plugin's environment that are neither in \<^verbatim>\<open>tld.py\<close> nor
  fixed by the language: \<^verbatim>\<open>str.lower\<close> (the Unicode case tables), the values of
  the decimal digits beyond ASCII (the Unicode database, for \<^verbatim>\<open>strptime\<close>),
  \<^verbatim>\<open>encodings.idna.ToASCII\<close> followed by \<^verbatim>\<open>decode('utf-8')\<close> (\<open>None\<close> when it
  raises \<^verbatim>\<open>UnicodeError\<close>), the two control codes of \<^verbatim>\<open>sopel.formatting\<close>,
  \<^verbatim>\<open>sopel.tools.get_sendable_message\<close>, and the tokenizer of
  \<^verbatim>\<open>HTMLParser\<close> (\<^verbatim>\<open>feed\<close> then \<^verbatim>\<open>close\<close>), which turns markup into the events
  above. The model takes them as parameters, so every theorem holds for any of them.
\<close>

record ext =
  str_lower :: "ustr \<Rightarrow> ustr"
  unicode_digit :: "nat \<Rightarrow> int option"
  idna_ToASCII :: "ustr \<Rightarrow> ustr option"
  CONTROL_BOLD :: ustr
  CONTROL_ITALIC :: ustr
  get_sendable_message :: "ustr \<Rightarrow> ustr \<times> ustr"
  html_events :: "ustr \<Rightarrow> html_event list"

text \<open>What the code logs, sends to the network and says on IRC, in order.\<close>

datatype level = DEBUG | WARNING | ERROR

datatype logmsg =
  ProcessedDataRequested
| ReturningStoredData
| EnsuringParsed
| ProcessingTables
| SkippingRow "ustr list"
| FinishedProcessing
| UnknownCacheType ustr
| SkippingCacheUpdate ustr int
| ErrorFetchingList
| ErrorFetchingData
| UpdatedCache ustr

datatype effect =
  Log level logmsg
| HttpGetList
| HttpGetData
| Reply ustr
| Say ustr

section \<open>The record index and its store\<close>

text \<open>
  A record of the index is a \<^verbatim>\<open>dict\<close> from field name to value. The index can hold
  the same \<^verbatim>\<open>dict\<close> object under two keys, so the model keeps the objects in a store:
  \<open>objects\<close> lists the record objects in the order \<^verbatim>\<open>get_processed_data\<close> built
  them, the address of an object is its position, and \<open>entries\<close> is the
  \<^verbatim>\<open>tld_list\<close> dict, from lookup key to address. Two keys hold the same object
  exactly when they hold the same address.
\<close>

type_synonym tld_record = "(ustr, ustr) dict"

record tld_data =
  objects :: "tld_record list"
  entries :: "(ustr, nat) dict"

definition empty_tld_data :: tld_data where
  "empty_tld_data = \<lparr>objects = [], entries = []\<rparr>"

text \<open>\<^verbatim>\<open>tld_data.get(key, None)\<close>: the record object under a key, if any.\<close>

definition lookup_record :: "tld_data \<Rightarrow> ustr \<Rightarrow> tld_record option" where
  "lookup_record d k =
     (case dict_get (entries d) k of
        None \<Rightarrow> None
      | Some a \<Rightarrow> if a < length (objects d) then Some (objects d ! a) else None)"

section \<open>The markup table extractor\<close>

record parser =
  in_cell :: bool
  skipping :: bool
  current_row :: "ustr list"
  current_cell :: ustr
  rows :: "ustr list list"
  tables :: "ustr list list list"
  finished :: "tld_data option"

text \<open>
  \<^verbatim>\<open>__init__\<close>. The source keeps the flag \<^verbatim>\<open>finished\<close> and then stores the
  processed mapping in \<^verbatim>\<open>self.tables\<close>; here \<open>finished\<close> holds that mapping once
  it exists.
\<close>

definition new_parser :: parser where
  "new_parser =
     \<lparr>in_cell = False, skipping = True, current_row = [], current_cell = [], rows = [],
      tables = [], finished = None\<rparr>"

text \<open>
  The loop over \<^verbatim>\<open>attrs\<close> of a \<^verbatim>\<open>table\<close> start tag.
  \<^verbatim>\<open>'wikitable' in value\<close> raises \<^verbatim>\<open>TypeError\<close> for a \<^verbatim>\<open>class\<close> attribute
  without a value.
\<close>

fun table_attrs :: "parser \<Rightarrow> (ustr \<times> ustr option) list \<Rightarrow> error + parser" where
  "table_attrs p [] = Inr p"
| "table_attrs p ((name, v) # attrs) =
     (if name = ascii ''class'' then
        (case v of
           None \<Rightarrow> Inl TypeError
         | Some w \<Rightarrow>
             table_attrs (if contains (ascii ''wikitable'') w then p\<lparr>skipping := False\<rparr> else p)
               attrs)
      else table_attrs p attrs)"

definition handle_starttag :: "parser \<Rightarrow> ustr \<Rightarrow> (ustr \<times> ustr option) list \<Rightarrow> error + parser" where
  "handle_starttag p tag attrs =
     (if tag = ascii ''td'' \<or> tag = ascii ''th'' then Inr (p\<lparr>in_cell := True\<rparr>)
      else if tag = ascii ''sup'' then Inr (p\<lparr>skipping := True\<rparr>)
      else if tag = ascii ''table'' then table_attrs p attrs
      else if (tag = ascii ''b'' \<or> tag = ascii ''strong'') \<and> in_cell p
        then Inr (p\<lparr>current_cell := current_cell p @ ascii ''<[bold]>''\<rparr>)
      else if (tag = ascii ''i'' \<or> tag = ascii ''em'') \<and> in_cell p
        then Inr (p\<lparr>current_cell := current_cell p @ ascii ''<[italic]>''\<rparr>)
      else Inr p)"

text \<open>The text of a finished cell: stripped, then the two placeholders replaced.\<close>

definition cell_text :: "ext \<Rightarrow> ustr \<Rightarrow> ustr" where
  "cell_text E c =
     replace (ascii ''<[italic]>'') (CONTROL_ITALIC E)
       (replace (ascii ''<[bold]>'') (CONTROL_BOLD E) (strip c))"

definition handle_endtag :: "ext \<Rightarrow> parser \<Rightarrow> ustr \<Rightarrow> parser" where
  "handle_endtag E p tag =
     (if tag = ascii ''td'' \<or> tag = ascii ''th'' then
        (if \<not> skipping p
         then p\<lparr>in_cell := False,
                current_row := current_row p @ [cell_text E (current_cell p)],
                current_cell := []\<rparr>
         else p\<lparr>in_cell := False, current_cell := []\<rparr>)
      else if tag = ascii ''tr'' then
        (if \<not> skipping p
         then p\<lparr>rows := rows p @ [current_row p], current_row := []\<rparr>
         else p\<lparr>current_row := []\<rparr>)
      else if tag = ascii ''table'' then
        (if \<not> skipping p
         then p\<lparr>tables := tables p @ [rows p], rows := [], skipping := True, in_cell := False\<rparr>
         else p\<lparr>rows := [], skipping := True, in_cell := False\<rparr>)
      else if tag = ascii ''sup'' \<and> in_cell p then p\<lparr>skipping := False\<rparr>
      else if (tag = ascii ''b'' \<or> tag = ascii ''strong'') \<and> in_cell p
        then p\<lparr>current_cell := current_cell p @ ascii ''<[bold]>''\<rparr>
      else if (tag = ascii ''i'' \<or> tag = ascii ''em'') \<and> in_cell p
        then p\<lparr>current_cell := current_cell p @ ascii ''<[italic]>''\<rparr>
      else p)"

definition handle_data :: "parser \<Rightarrow> ustr \<Rightarrow> parser" where
  "handle_data p s =
     (if in_cell p \<and> \<not> skipping p then p\<lparr>current_cell := current_cell p @ s\<rparr> else p)"

fun handle_event :: "ext \<Rightarrow> parser \<Rightarrow> html_event \<Rightarrow> error + parser" where
  "handle_event E p (StartTag tag attrs) = handle_starttag p tag attrs"
| "handle_event E p (EndTag tag) = Inr (handle_endtag E p tag)"
| "handle_event E p (Data s) = Inr (handle_data p s)"

text \<open>The handlers run over the events of a document; an exception stops the run.\<close>

fun run_events :: "ext \<Rightarrow> parser \<Rightarrow> html_event list \<Rightarrow> error + parser" where
  "run_events E p [] = Inr p"
| "run_events E p (ev # evs) =
     (case handle_event E p ev of Inl e \<Rightarrow> Inl e | Inr q \<Rightarrow> run_events E q evs)"

section \<open>The record indexer\<close>

text \<open>
  The loop over the cells of a row that looks for the two lookup keys. \<open>key\<close> and
  \<open>idn_key\<close> start as \<^verbatim>\<open>None\<close>; a matching cell sets a key only while the key is
  still falsy.
\<close>

fun find_keys :: "(ustr \<Rightarrow> ustr) \<Rightarrow> ustr option \<times> ustr option \<Rightarrow> ustr list \<Rightarrow> ustr option \<times> ustr option" where
  "find_keys low (key, idn_key) [] = (key, idn_key)"
| "find_keys low (key, idn_key) (cell # cells) =
     find_keys low
       (if r_tld cell \<noteq> None \<and> \<not> truthy key then map_option low (r_tld cell) else key,
        if r_idn cell \<noteq> None \<and> \<not> truthy idn_key then map_option low (r_idn cell) else idn_key)
       cells"

text \<open>
  The dict comprehension: headings zipped with the cells, made a \<^verbatim>\<open>dict\<close>, and the
  items kept whose value is truthy and is not the em dash (U+2014).
\<close>

definition zipped :: "ustr list \<Rightarrow> ustr list \<Rightarrow> tld_record" where
  "zipped headings row =
     filter (\<lambda>fv. snd fv \<noteq> [] \<and> snd fv \<noteq> [8212]) (dict_of (zip headings row))"

text \<open>\<^verbatim>\<open>if key: tld_list[key] = zipped\<close>, with \<open>a\<close> the address of \<^verbatim>\<open>zipped\<close>.\<close>

fun store_under :: "ustr option \<Rightarrow> nat \<Rightarrow> (ustr, nat) dict \<Rightarrow> (ustr, nat) dict" where
  "store_under None a e = e"
| "store_under (Some k) a e = (if k = [] then e else dict_set k a e)"

definition process_row :: "ext \<Rightarrow> ustr list \<Rightarrow> tld_data \<times> effect list \<Rightarrow> ustr list \<Rightarrow> tld_data \<times> effect list" where
  "process_row E headings st row =
     (let ks = find_keys (str_lower E) (None, None) row in
      if \<not> (truthy (fst ks) \<or> truthy (snd ks))
      then (fst st, snd st @ [Log WARNING (SkippingRow row)])
      else
        (\<lparr>objects = objects (fst st) @ [zipped headings row],
          entries =
            store_under (snd ks) (length (objects (fst st)))
              (store_under (fst ks) (length (objects (fst st))) (entries (fst st)))\<rparr>,
         snd st))"

text \<open>
  The loop over the tables. \<^verbatim>\<open>table[0]\<close> raises \<^verbatim>\<open>IndexError\<close> for a table
  without rows.
\<close>

fun process_tables :: "ext \<Rightarrow> tld_data \<times> effect list \<Rightarrow> ustr list list list \<Rightarrow> (error + tld_data) \<times> effect list" where
  "process_tables E st [] = (Inr (fst st), snd st)"
| "process_tables E st ([] # ts) = (Inl IndexError, snd st)"
| "process_tables E st ((headings # rs) # ts) =
     process_tables E (foldl (process_row E headings) st rs) ts"

text \<open>
  \<^verbatim>\<open>get_processed_data\<close>: the result or the exception, the parser afterwards, and
  what was logged.
\<close>

definition get_processed_data :: "ext \<Rightarrow> parser \<Rightarrow> (error + tld_data) \<times> parser \<times> effect list" where
  "get_processed_data E p =
     (case finished p of
        Some d \<Rightarrow>
          (Inr d, p, [Log DEBUG ProcessedDataRequested, Log DEBUG ReturningStoredData])
      | None \<Rightarrow>
          (case process_tables E
                  (empty_tld_data,
                   [Log DEBUG ProcessedDataRequested, Log DEBUG EnsuringParsed,
                    Log DEBUG ProcessingTables])
                  (tables p) of
             (Inl e, lg) \<Rightarrow> (Inl e, p, lg)
           | (Inr d, lg) \<Rightarrow>
               (Inr d, p\<lparr>finished := Some d\<rparr>, lg @ [Log DEBUG FinishedProcessing])))"

section \<open>The caches in the bot's memory\<close>

text \<open>The four entries of \<^verbatim>\<open>bot.memory\<close> that the plugin owns.\<close>

record memory =
  tld_list_cache :: "ustr list"
  tld_list_cache_updated :: datetime
  tld_data_cache :: tld_data
  tld_data_cache_updated :: datetime

text \<open>
  The four values of the plugin in the bot's database: absent, or what \<^verbatim>\<open>shutdown\<close>
  stored (a list of strings, a mapping of records, and the two timestamps as text).
\<close>

record db =
  stored_tld_list_cache :: "ustr list option"
  stored_tld_list_cache_updated :: "ustr option"
  stored_tld_data_cache :: "tld_data option"
  stored_tld_data_cache_updated :: "ustr option"

text \<open>
  Modelled from the spec: \<^verbatim>\<open>bot.db.get_plugin_value(plugin, key, default)\<close> is not
  in the sources at hand (\<^verbatim>\<open>sopel/db.py\<close>); the spec's durable storage collaborator
  loads a persisted value "with documented defaults", that is the stored value when there is
  one and the default that the caller passes otherwise.
\<close>

definition get_plugin_value :: "'a option \<Rightarrow> 'a \<Rightarrow> 'a" where
  "get_plugin_value stored dflt = (case stored of None \<Rightarrow> dflt | Some v \<Rightarrow> v)"

text \<open>
  \<^verbatim>\<open>setup(bot)\<close> (\<open>setup\<close> is a command of Isabelle, hence the suffix): the
  memory it leaves, or the exception of \<^verbatim>\<open>strptime\<close>.
\<close>

definition setup_tld :: "ext \<Rightarrow> db \<Rightarrow> error + memory" where
  "setup_tld E d =
     (case strptime (unicode_digit E)
             (get_plugin_value (stored_tld_list_cache_updated d)
                (ascii ''2000-01-01 00:00:00'')) of
        Inl e \<Rightarrow> Inl e
      | Inr t1 \<Rightarrow>
          (case strptime (unicode_digit E)
                  (get_plugin_value (stored_tld_data_cache_updated d)
                     (ascii ''2000-01-01 00:00:00'')) of
             Inl e \<Rightarrow> Inl e
           | Inr t2 \<Rightarrow>
               Inr \<lparr>tld_list_cache = get_plugin_value (stored_tld_list_cache d) [],
                    tld_list_cache_updated = t1,
                    tld_data_cache = get_plugin_value (stored_tld_data_cache d) empty_tld_data,
                    tld_data_cache_updated = t2\<rparr>))"

section \<open>The network\<close>

text \<open>
  A decoded JSON value, and \<^verbatim>\<open>value[key]\<close> for a string key: \<^verbatim>\<open>KeyError\<close> when
  an object lacks the key, \<^verbatim>\<open>TypeError\<close> for every value that is not an object.
\<close>

datatype json =
  JNull
| JBool bool
| JNum int
| JStr ustr
| JArr "json list"
| JObj "(ustr \<times> json) list"

fun subscript :: "json \<Rightarrow> ustr \<Rightarrow> error + json" where
  "subscript (JObj kv) k = (case map_of kv k of None \<Rightarrow> Inl KeyError | Some v \<Rightarrow> Inr v)"
| "subscript JNull k = Inl TypeError"
| "subscript (JBool b) k = Inl TypeError"
| "subscript (JNum n) k = Inl TypeError"
| "subscript (JStr s) k = Inl TypeError"
| "subscript (JArr js) k = Inl TypeError"

text \<open>
  What \<^verbatim>\<open>requests.get(IANA_LIST_URI).text\<close> gives: a
  \<^verbatim>\<open>RequestException\<close>, or the text of the response. What
  \<^verbatim>\<open>requests.get(...).json()\<close> gives: a \<^verbatim>\<open>RequestException\<close>, a
  \<^verbatim>\<open>ValueError\<close> for a body that is not JSON, or the decoded value.
\<close>

datatype iana_reply = IanaRequestException | IanaText ustr

datatype wiki_reply = WikiRequestException | WikiNotJSON | WikiJSON json

text \<open>
  What one call of \<^verbatim>\<open>_update_tld_data\<close> reads from the world:
  \<^verbatim>\<open>datetime.now()\<close> and the reply to the request it may send.
\<close>

record world =
  clock :: datetime
  iana :: iana_reply
  wiki :: wiki_reply

text \<open>
  What a call leaves: the exception that propagates to the caller, if any, the memory,
  and the effects in order.
\<close>

record outcome =
  raised :: "error option"
  memory_after :: memory
  effects :: "effect list"

section \<open>The cache update\<close>

text \<open>The list comprehension over \<^verbatim>\<open>tld_list.splitlines()\<close>.\<close>

definition parse_tld_list :: "ext \<Rightarrow> ustr \<Rightarrow> ustr list" where
  "parse_tld_list E t =
     map (str_lower E) (filter (\<lambda>line. \<not> startswith line (ascii ''#'')) (splitlines t))"

text \<open>
  The \<^verbatim>\<open>try\<close> block of the \<^verbatim>\<open>data\<close> branch:
  \<^verbatim>\<open>tld_response["parse"]["text"]\<close>.
\<close>

definition parse_text :: "json \<Rightarrow> error + json" where
  "parse_text j =
     (case subscript j (ascii ''parse'') of
        Inl e \<Rightarrow> Inl e
      | Inr v \<Rightarrow> subscript v (ascii ''text''))"

text \<open>
  The rest of the \<^verbatim>\<open>data\<close> branch, after the \<^verbatim>\<open>try\<close>: a new parser is fed the
  text (\<^verbatim>\<open>feed\<close> raises \<^verbatim>\<open>TypeError\<close> for a value that is not a string) and the
  processed data replaces the cache.
\<close>

definition store_tld_data :: "ext \<Rightarrow> world \<Rightarrow> memory \<Rightarrow> json \<Rightarrow> outcome" where
  "store_tld_data E w m v =
     (case v of
        JStr s \<Rightarrow>
          (case run_events E new_parser (html_events E s) of
             Inl e \<Rightarrow> \<lparr>raised = Some e, memory_after = m, effects = [HttpGetData]\<rparr>
           | Inr p \<Rightarrow>
               (case get_processed_data E p of
                  (Inl e, q, lg) \<Rightarrow>
                    \<lparr>raised = Some e, memory_after = m, effects = HttpGetData # lg\<rparr>
                | (Inr d, q, lg) \<Rightarrow>
                    \<lparr>raised = None,
                     memory_after = m\<lparr>tld_data_cache := d, tld_data_cache_updated := clock w\<rparr>,
                     effects = HttpGetData # lg @ [Log DEBUG (UpdatedCache (ascii ''data''))]\<rparr>))
      | _ \<Rightarrow> \<lparr>raised = Some TypeError, memory_after = m, effects = [HttpGetData]\<rparr>)"

text \<open>\<^verbatim>\<open>_update_tld_data(bot, which)\<close>.\<close>

definition update_tld_data :: "ext \<Rightarrow> world \<Rightarrow> memory \<Rightarrow> ustr \<Rightarrow> outcome" where
  "update_tld_data E w m which =
     (if which \<noteq> ascii ''list'' \<and> which \<noteq> ascii ''data''
      then \<lparr>raised = None, memory_after = m, effects = [Log ERROR (UnknownCacheType which)]\<rparr>
      else
        (let prev = (if which = ascii ''list'' then tld_list_cache_updated m
                      else tld_data_cache_updated m);
             since = datetime_sub (clock w) prev
         in
         if days since < 7
         then \<lparr>raised = None, memory_after = m,
               effects = [Log DEBUG (SkippingCacheUpdate which (days since))]\<rparr>
         else if which = ascii ''list'' then
           (case iana w of
              IanaRequestException \<Rightarrow>
                \<lparr>raised = None, memory_after = m,
                 effects = [HttpGetList, Log WARNING ErrorFetchingList]\<rparr>
            | IanaText t \<Rightarrow>
                \<lparr>raised = None,
                 memory_after =
                   m\<lparr>tld_list_cache := parse_tld_list E t, tld_list_cache_updated := clock w\<rparr>,
                 effects = [HttpGetList, Log DEBUG (UpdatedCache which)]\<rparr>)
         else
           (case wiki w of
              WikiRequestException \<Rightarrow>
                \<lparr>raised = None, memory_after = m,
                 effects = [HttpGetData, Log WARNING ErrorFetchingData]\<rparr>
            | WikiNotJSON \<Rightarrow>
                \<lparr>raised = None, memory_after = m,
                 effects = [HttpGetData, Log WARNING ErrorFetchingData]\<rparr>
            | WikiJSON j \<Rightarrow>
                (case parse_text j of
                   Inl e \<Rightarrow>
                     if e = KeyError \<or> e = ValueError
                     then \<lparr>raised = None, memory_after = m,
                           effects = [HttpGetData, Log WARNING ErrorFetchingData]\<rparr>
                     else \<lparr>raised = Some e, memory_after = m, effects = [HttpGetData]\<rparr>
                 | Inr v \<Rightarrow> store_tld_data E w m v))))"

text \<open>
  \<^verbatim>\<open>update_caches(bot)\<close>, the hourly job: both updates, each with its own reading
  of the world. An exception of the first call ends the job.
\<close>

definition update_caches :: "ext \<Rightarrow> world \<Rightarrow> world \<Rightarrow> memory \<Rightarrow> outcome" where
  "update_caches E w1 w2 m =
     (let r1 = update_tld_data E w1 m (ascii ''list'') in
      case raised r1 of
        Some e \<Rightarrow> r1
      | None \<Rightarrow>
          (let r2 = update_tld_data E w2 (memory_after r1) (ascii ''data'') in
           r2\<lparr>effects := effects r1 @ effects r2\<rparr>))"

section \<open>The query resolver\<close>

text \<open>The three fixed replies of \<^verbatim>\<open>gettld\<close>.\<close>

definition msg_need_tld :: ustr where
  "msg_need_tld = ascii ''You must provide a top-level domain to search.''"

definition msg_not_valid :: "ustr \<Rightarrow> ustr" where
  "msg_not_valid tld =
     ascii ''The top-level domain '' @ [39] @ tld @ [39] @ ascii '' is not in IANA'' @ [39]
       @ ascii ''s list of valid TLDs.''"

definition msg_no_details :: "ustr \<Rightarrow> ustr" where
  "msg_no_details tld =
     ascii ''The top-level domain '' @ [39] @ tld @ [39]
       @ ascii '' exists, but no details about it could be found.''"

text \<open>\<^verbatim>\<open>tld.strip('.').lower()\<close>.\<close>

definition normalize_tld :: "ext \<Rightarrow> ustr \<Rightarrow> ustr" where
  "normalize_tld E raw = str_lower E (strip_chars (ascii ''.'') raw)"

text \<open>The key of \<^verbatim>\<open>fields.sort\<close>.\<close>

definition notes_or_comments :: "ustr \<Rightarrow> bool" where
  "notes_or_comments s = (startswith s (ascii ''Notes'') \<or> startswith s (ascii ''Comments''))"

text \<open>
  \<^verbatim>\<open>fields = list(record.keys())\<close> and \<^verbatim>\<open>fields.sort(key=...)\<close>. The sort of
  Python lists is stable, and \<^verbatim>\<open>False < True\<close>; \<open>sort_key\<close> is the stable
  insertion sort of the library.
\<close>

definition sorted_fields :: "tld_record \<Rightarrow> ustr list" where
  "sorted_fields r = sort_key notes_or_comments (map fst r)"

text \<open>The loop that fills \<^verbatim>\<open>items\<close>: one item per field whose value is truthy.\<close>

definition field_items :: "tld_record \<Rightarrow> ustr list \<Rightarrow> ustr list" where
  "field_items r fs =
     concat (map (\<lambda>f. case dict_get r f of
                         None \<Rightarrow> []
                       | Some v \<Rightarrow> if v \<noteq> [] then [f @ ascii '': '' @ v] else []) fs)"

text \<open>
  The message that \<^verbatim>\<open>gettld\<close> says for a record; the mark that follows a
  cut message is a space and, between square brackets, the ellipsis U+2026.
\<close>

definition render_record :: "ext \<Rightarrow> tld_record \<Rightarrow> ustr" where
  "render_record E r =
     (let message = join (ascii '' | '') (field_items r (sorted_fields r));
          ue = get_sendable_message E message
      in if snd ue \<noteq> [] then fst ue @ [32, 91, 8230, 93] else message)"

text \<open>
  The end of \<^verbatim>\<open>gettld\<close>, from \<^verbatim>\<open>record = tld_data.get(tld, None)\<close> on:
  what is said for the token, given the record index.
\<close>

definition respond :: "ext \<Rightarrow> tld_data \<Rightarrow> ustr \<Rightarrow> effect" where
  "respond E d tld =
     (case lookup_record d tld of
        None \<Rightarrow> Say (msg_no_details tld)
      | Some r \<Rightarrow> if r = [] then Say (msg_no_details tld) else Say (render_record E r))"

text \<open>
  \<^verbatim>\<open>if not bot.memory['tld_list_cache']: _update_tld_data(bot, 'list')\<close> and the
  same for the data cache.
\<close>

definition ensure_list :: "ext \<Rightarrow> world \<Rightarrow> memory \<Rightarrow> outcome" where
  "ensure_list E w m =
     (if tld_list_cache m = [] then update_tld_data E w m (ascii ''list'')
      else \<lparr>raised = None, memory_after = m, effects = []\<rparr>)"

definition ensure_data :: "ext \<Rightarrow> world \<Rightarrow> memory \<Rightarrow> outcome" where
  "ensure_data E w m =
     (if entries (tld_data_cache m) = [] then update_tld_data E w m (ascii ''data'')
      else \<lparr>raised = None, memory_after = m, effects = []\<rparr>)"

text \<open>
  The middle of \<^verbatim>\<open>gettld\<close>, from the validation against the list on. \<open>fx\<close> are the
  effects so far. Both names of the list comprehension are computed before \<^verbatim>\<open>any\<close>,
  so \<^verbatim>\<open>idna.ToASCII\<close> can raise for a token that is in the list.
\<close>

definition validate_and_answer :: "ext \<Rightarrow> world \<Rightarrow> memory \<Rightarrow> effect list \<Rightarrow> ustr \<Rightarrow> outcome" where
  "validate_and_answer E w2 m fx tld =
     (case idna_ToASCII E tld of
        None \<Rightarrow> \<lparr>raised = Some UnicodeError, memory_after = m, effects = fx\<rparr>
      | Some a \<Rightarrow>
          if \<not> (tld \<in> set (tld_list_cache m) \<or> a \<in> set (tld_list_cache m))
          then \<lparr>raised = None, memory_after = m, effects = fx @ [Reply (msg_not_valid tld)]\<rparr>
          else
            (let r2 = ensure_data E w2 m
             in case raised r2 of
                  Some e \<Rightarrow>
                    \<lparr>raised = Some e, memory_after = memory_after r2,
                     effects = fx @ effects r2\<rparr>
                | None \<Rightarrow>
                    \<lparr>raised = None, memory_after = memory_after r2,
                     effects =
                       fx @ effects r2 @ [respond E (tld_data_cache (memory_after r2)) tld]\<rparr>))"

text \<open>
  \<^verbatim>\<open>gettld\<close> after the normalisation, for the normalised token \<open>tld\<close>: \<open>w1\<close> and
  \<open>w2\<close> are what the update of the list and the update of the data would read from the
  world.
\<close>

definition resolve_token :: "ext \<Rightarrow> world \<Rightarrow> world \<Rightarrow> memory \<Rightarrow> ustr \<Rightarrow> outcome" where
  "resolve_token E w1 w2 m tld =
     (let r1 = ensure_list E w1 m
      in case raised r1 of
           Some e \<Rightarrow> r1
         | None \<Rightarrow> validate_and_answer E w2 (memory_after r1) (effects r1) tld)"

text \<open>\<^verbatim>\<open>gettld(bot, trigger)\<close>: \<open>arg\<close> is \<^verbatim>\<open>trigger.group(2)\<close>.\<close>

definition gettld :: "ext \<Rightarrow> world \<Rightarrow> world \<Rightarrow> memory \<Rightarrow> ustr option \<Rightarrow> outcome" where
  "gettld E w1 w2 m arg =
     (case arg of
        None \<Rightarrow> \<lparr>raised = None, memory_after = m, effects = [Reply msg_need_tld]\<rparr>
      | Some raw \<Rightarrow>
          if raw = [] then \<lparr>raised = None, memory_after = m, effects = [Reply msg_need_tld]\<rparr>
          else resolve_token E w1 w2 m (normalize_tld E raw))"

section \<open>A concrete environment\<close>

text \<open>
  An environment to run the model on ASCII text: \<^verbatim>\<open>str.lower\<close> on ASCII letters,
  no decimal digit beyond ASCII,
  \<^verbatim>\<open>ToASCII\<close> on ASCII labels of 1 to 63 characters (which it returns unchanged),
  the control codes \<^verbatim>\<open>'\x02'\<close> and \<^verbatim>\<open>'\x1d'\<close>, a transport that sends
  every message whole, and a tokenizer that finds no tag (the examples give the events of
  their tables themselves). The examples below are evaluated in it.
\<close>

definition lower_ascii :: "ustr \<Rightarrow> ustr" where
  "lower_ascii s = map (\<lambda>c. if 65 \<le> c \<and> c \<le> 90 then c + 32 else c) s"

definition toascii_ascii :: "ustr \<Rightarrow> ustr option" where
  "toascii_ascii s =
     (if list_all (\<lambda>c. c < 128) s \<and> 0 < length s \<and> length s < 64 then Some s else None)"

definition test_ext :: ext where
  "test_ext =
     \<lparr>str_lower = lower_ascii, unicode_digit = (\<lambda>c. None), idna_ToASCII = toascii_ascii,
      CONTROL_BOLD = [2],
      CONTROL_ITALIC = [29], get_sendable_message = (\<lambda>s. (s, [])),
      html_events = (\<lambda>s. [])\<rparr>"

section \<open>Values and predicates for the statements\<close>

text \<open>A date at midnight, the database with nothing stored, and the memory of a first start.\<close>

definition midnight :: "int \<Rightarrow> int \<Rightarrow> int \<Rightarrow> datetime" where
  "midnight y m d =
     \<lparr>year = y, month = m, day = d, hour = 0, minute = 0, second = 0, microsecond = 0\<rparr>"

definition no_stored_values :: db where
  "no_stored_values =
     \<lparr>stored_tld_list_cache = None, stored_tld_list_cache_updated = None,
      stored_tld_data_cache = None, stored_tld_data_cache_updated = None\<rparr>"

definition default_memory :: memory where
  "default_memory =
     \<lparr>tld_list_cache = [], tld_list_cache_updated = midnight 2000 1 1,
      tld_data_cache = \<lparr>objects = [], entries = []\<rparr>,
      tld_data_cache_updated = midnight 2000 1 1\<rparr>"

text \<open>The effects that are log lines.\<close>

fun is_log :: "effect \<Rightarrow> bool" where
  "is_log (Log l msg) = True"
| "is_log HttpGetList = False"
| "is_log HttpGetData = False"
| "is_log (Reply s) = False"
| "is_log (Say s) = False"

text \<open>
  The normal form that claim C6 states, to compare with \<open>normalize_tld\<close>:
  \<^verbatim>\<open>lstrip\<close> removes the leading characters only.
\<close>

definition lstrip_chars :: "ustr \<Rightarrow> ustr \<Rightarrow> ustr" where
  "lstrip_chars chars s = dropWhile (\<lambda>c. c \<in> set chars) s"

definition claimed_normalize_tld :: "ext \<Rightarrow> ustr \<Rightarrow> ustr" where
  "claimed_normalize_tld E raw = str_lower E (lstrip_chars (ascii ''.'') raw)"

text \<open>
  Worlds and memories for the examples: a world where both requests fail, a world where
  the registry answers with an empty text, the day after, the memory that the update leaves
  in that world after a first start, and a memory whose index holds an empty record.
\<close>

definition failing_world :: world where
  "failing_world = \<lparr>clock = midnight 2024 6 1, iana = IanaRequestException, wiki = WikiNotJSON\<rparr>"

definition empty_reply_world :: world where
  "empty_reply_world = \<lparr>clock = midnight 2026 1 1, iana = IanaText [], wiki = WikiNotJSON\<rparr>"

definition next_day_world :: world where
  "next_day_world = \<lparr>clock = midnight 2026 1 2, iana = IanaText [], wiki = WikiNotJSON\<rparr>"

definition emptied_memory :: memory where
  "emptied_memory = memory_after (update_tld_data test_ext empty_reply_world default_memory (ascii ''list''))"

definition zz_memory :: memory where
  "zz_memory =
     \<lparr>tld_list_cache = [ascii ''zz''], tld_list_cache_updated = midnight 2026 1 1,
      tld_data_cache = \<lparr>objects = [[]], entries = [(ascii ''zz'', 0)]\<rparr>,
      tld_data_cache_updated = midnight 2026 1 1\<rparr>"

text \<open>
  The lookup keys that the indexer derives from a row: the truthy ones of \<open>key\<close> and
  \<open>idn_key\<close> after the loop over the cells, in the order they are stored under.
\<close>

definition key_list :: "ustr option \<Rightarrow> ustr list" where
  "key_list k = (case k of None \<Rightarrow> [] | Some s \<Rightarrow> if s = [] then [] else [s])"

definition row_keys :: "ext \<Rightarrow> ustr list \<Rightarrow> ustr list" where
  "row_keys E row =
     key_list (fst (find_keys (str_lower E) (None, None) row)) @
     key_list (snd (find_keys (str_lower E) (None, None) row))"

text \<open>The first group that a regular expression gives along a row.\<close>

fun first_match :: "(ustr \<Rightarrow> ustr option) \<Rightarrow> ustr list \<Rightarrow> ustr option" where
  "first_match f [] = None"
| "first_match f (c # cs) = (case f c of Some g \<Rightarrow> Some g | None \<Rightarrow> first_match f cs)"

text \<open>
  The events of a well-formed table of the class \<open>cls\<close>: the start tag of the table
  with its \<^verbatim>\<open>class\<close> attribute, a row of \<^verbatim>\<open>th\<close> cells for the heading,
  one row of \<^verbatim>\<open>td\<close> cells for each data row, and the end tag; every cell is a
  start tag, its text and the end tag. \<open>in_table\<close> is the parser between two cells of
  such a table.
\<close>

definition cell_events :: "ustr \<Rightarrow> ustr \<Rightarrow> html_event list" where
  "cell_events tag s = [StartTag tag [], Data s, EndTag tag]"

definition row_events :: "ustr \<Rightarrow> ustr list \<Rightarrow> html_event list" where
  "row_events tag cells =
     StartTag (ascii ''tr'') [] # concat (map (cell_events tag) cells) @ [EndTag (ascii ''tr'')]"

definition wikitable_events :: "ustr \<Rightarrow> ustr list \<Rightarrow> ustr list list \<Rightarrow> html_event list" where
  "wikitable_events cls heading rs =
     StartTag (ascii ''table'') [(ascii ''class'', Some cls)] #
     row_events (ascii ''th'') heading @ concat (map (row_events (ascii ''td'')) rs) @
     [EndTag (ascii ''table'')]"

definition in_table :: "ustr list \<Rightarrow> ustr list list \<Rightarrow> parser" where
  "in_table cr rs =
     \<lparr>in_cell = False, skipping = False, current_row = cr, current_cell = [], rows = rs,
      tables = [], finished = None\<rparr>"

text \<open>
  The value of \<open>key\<close> after the loop, given its value before and the first match
  along the cells; the rows of a table that yield a key.
\<close>

definition from_first :: "(ustr \<Rightarrow> ustr) \<Rightarrow> ustr option \<Rightarrow> ustr option \<Rightarrow> ustr option" where
  "from_first low key found = (case key of Some k \<Rightarrow> Some k | None \<Rightarrow> map_option low found)"

definition keyed :: "ext \<Rightarrow> ustr list list \<Rightarrow> ustr list list" where
  "keyed E rs = filter (\<lambda>r. row_keys E r \<noteq> []) rs"

text \<open>
  Tables and processed data for the examples: a table whose second row takes a key of the
  first, what the indexer gives for it, what it gives when the second row has keys of its
  own, a row with two suffix tokens, and a table as it comes from markup.
\<close>

definition overwritten_tables :: "ustr list list list" where
  "overwritten_tables =
     [[[ascii ''Name'', ascii ''IDN''], [ascii ''.aa'', ascii ''xn--bb''],
       [ascii ''.cc'', ascii ''xn--bb'']]]"

definition overwritten_data :: tld_data where
  "overwritten_data =
     \<lparr>objects = [[(ascii ''Name'', ascii ''.aa''), (ascii ''IDN'', ascii ''xn--bb'')],
                 [(ascii ''Name'', ascii ''.cc''), (ascii ''IDN'', ascii ''xn--bb'')]],
      entries = [(ascii ''aa'', 0), (ascii ''xn--bb'', 1), (ascii ''cc'', 1)]\<rparr>"

definition shared_data :: tld_data where
  "shared_data =
     \<lparr>objects = [[(ascii ''Name'', ascii ''.aa''), (ascii ''IDN'', ascii ''xn--bb'')],
                 [(ascii ''Name'', ascii ''.cc''), (ascii ''IDN'', ascii ''x'')]],
      entries = [(ascii ''aa'', 0), (ascii ''xn--bb'', 0), (ascii ''cc'', 1)]\<rparr>"

definition two_suffix_rows :: "ustr list list" where
  "two_suffix_rows = [[ascii ''.aa'', ascii ''.bb'']]"

definition sample_heading :: "ustr list" where
  "sample_heading = [ascii '' Name '', ascii ''Entity'']"

definition sample_rows :: "ustr list list" where
  "sample_rows =
     [[ascii ''.AA'', ascii ''xn--bb''], [ascii ''foo'', ascii ''bar''], [ascii ''.cc '', [8212]]]"

definition sample_cells :: "ustr list list" where
  "sample_cells =
     [[ascii ''.AA'', ascii ''xn--bb''], [ascii ''foo'', ascii ''bar''], [ascii ''.cc'', [8212]]]"

definition sample_data :: tld_data where
  "sample_data =
     \<lparr>objects = [[(ascii ''Name'', ascii ''.AA''), (ascii ''Entity'', ascii ''xn--bb'')],
                 [(ascii ''Name'', ascii ''.cc'')]],
      entries = [(ascii ''aa'', 0), (ascii ''xn--bb'', 0), (ascii ''cc'', 1)]\<rparr>"

text \<open>
  More values for the examples: a world where the wiki answers with a JSON array, and a
  memory whose index holds a record with notes and comments among its fields.
\<close>

definition array_reply_world :: world where
  "array_reply_world =
     \<lparr>clock = midnight 2024 6 1, iana = IanaRequestException, wiki = WikiJSON (JArr [])\<rparr>"

definition ru_record :: tld_record where
  "ru_record =
     [(ascii ''Notes'', ascii ''n1''), (ascii ''Sponsor'', ascii ''s1''),
      (ascii ''Comments'', ascii ''c1''), (ascii ''Type'', ascii ''t1'')]"

definition ru_memory :: memory where
  "ru_memory =
     \<lparr>tld_list_cache = [ascii ''ru''], tld_list_cache_updated = midnight 2026 1 1,
      tld_data_cache = \<lparr>objects = [ru_record], entries = [(ascii ''ru'', 0)]\<rparr>,
      tld_data_cache_updated = midnight 2026 1 1\<rparr>"

section \<open>Lemmas on the library functions\<close>

lemma insort_key_bool_front: "\<not> p x \<Longrightarrow> insort_key p x ys = x # ys"
  by (cases ys) auto

lemma insort_key_bool_split:
  "p x \<Longrightarrow> list_all (\<lambda>y. \<not> p y) ys \<Longrightarrow> list_all p zs \<Longrightarrow>
   insort_key p x (ys @ zs) = ys @ x # zs"
proof (induction ys)
  case Nil
  then show ?case by (cases zs) auto
next
  case (Cons y ys)
  then show ?case by auto
qed

lemma sort_key_bool_partition: "sort_key p xs = filter (\<lambda>x. \<not> p x) xs @ filter p xs"
proof (induction xs)
  case Nil
  show ?case by simp
next
  case (Cons x xs)
  show ?case
  proof (cases "p x")
    case True
    have "insort_key p x (filter (\<lambda>y. \<not> p y) xs @ filter p xs) =
            filter (\<lambda>y. \<not> p y) xs @ x # filter p xs"
      using True by (intro insort_key_bool_split) (simp_all add: list_all_iff)
    then show ?thesis using True Cons by simp
  next
    case False
    then show ?thesis using Cons by (simp add: insort_key_bool_front)
  qed
qed

lemmas strptime_defs =
  strptime_def match_date_format_def ascii_def field_Y_def field_m_def field_d_def
  field_H_def field_M_def field_S_def literal_def spaces_def two_digits_def one_digit_def
  orelse_def ascii_digit_def decimal_digit_def isspace_def valid_datetime_def
  days_in_month_def

lemma strptime_default:
  "strptime ud (ascii ''2000-01-01 00:00:00'') = Inr (midnight 2000 1 1)"
  by (simp add: strptime_defs midnight_def)

text \<open>
  The \<open>days\<close> of a difference is the floor of the elapsed time in days, counted in
  microseconds.
\<close>

lemma days_floor:
  "days (datetime_sub a b) =
     (((toordinal a - toordinal b) * 86400 + (seconds_of_day a - seconds_of_day b)) * 1000000
        + (microsecond a - microsecond b)) div 86400000000"
proof -
  define D where "D = toordinal a - toordinal b"
  define S where "S = seconds_of_day a - seconds_of_day b"
  define U where "U = microsecond a - microsecond b"
  have "((D * 86400 + S) * 1000000 + U) div 86400000000 =
          (((D * 86400 + S) * 1000000 + U) div 1000000) div 86400"
    by (simp add: div_mult2_eq)
  also have "((D * 86400 + S) * 1000000 + U) div 1000000 = (D * 86400 + S) + U div 1000000"
    by simp
  also have "((D * 86400 + S) + U div 1000000) div 86400 = D + (S + U div 1000000) div 86400"
    by (simp add: add.assoc)
  finally show ?thesis
    by (simp add: datetime_sub_def new_timedelta_def D_def S_def U_def)
qed

lemmas date_defs =
  datetime_sub_def new_timedelta_def toordinal_def seconds_of_day_def days_before_year_def
  days_before_month_def is_leap_def midnight_def

section \<open>Lemmas on the effects of an update\<close>

lemma process_row_logs:
  "list_all is_log (snd st) \<Longrightarrow> list_all is_log (snd (process_row E h st row))"
  by (simp add: process_row_def Let_def)

lemma process_rows_logs:
  "list_all is_log (snd st) \<Longrightarrow> list_all is_log (snd (foldl (process_row E h) st rs))"
  by (induction rs arbitrary: st) (simp_all add: process_row_logs)

lemma process_tables_logs:
  "list_all is_log (snd st) \<Longrightarrow> list_all is_log (snd (process_tables E st ts))"
  by (induction E st ts rule: process_tables.induct) (simp_all add: process_rows_logs)

lemma get_processed_data_logs: "list_all is_log (snd (snd (get_processed_data E p)))"
proof (cases "finished p")
  case (Some d)
  then show ?thesis by (simp add: get_processed_data_def)
next
  case None
  let ?r = "process_tables E
     (empty_tld_data,
      [Log DEBUG ProcessedDataRequested, Log DEBUG EnsuringParsed, Log DEBUG ProcessingTables])
     (tables p)"
  have "list_all is_log (snd ?r)" by (rule process_tables_logs) simp
  then show ?thesis using None
    by (cases ?r) (auto simp: get_processed_data_def split: sum.splits)
qed

lemma store_tld_data_effects:
  "\<exists>lg. effects (store_tld_data E w m v) = HttpGetData # lg \<and> list_all is_log lg"
proof (cases v)
  case (JStr s)
  show ?thesis
  proof (cases "run_events E new_parser (html_events E s)")
    case (Inl e)
    then show ?thesis using JStr by (simp add: store_tld_data_def)
  next
    case (Inr p)
    obtain r q lg where g: "get_processed_data E p = (r, q, lg)"
      by (cases "get_processed_data E p") auto
    have "list_all is_log lg" using get_processed_data_logs [of E p] g by simp
    then show ?thesis using JStr Inr g
      by (cases r) (simp_all add: store_tld_data_def)
  qed
qed (simp_all add: store_tld_data_def)

lemma data_is_not_list: "ascii ''data'' \<noteq> ascii ''list''"
  by (simp add: ascii_def)

lemma update_data_fresh:
  "days (datetime_sub (clock w) (tld_data_cache_updated m)) < 7 \<Longrightarrow>
     update_tld_data E w m (ascii ''data'') =
       \<lparr>raised = None, memory_after = m,
        effects = [Log DEBUG (SkippingCacheUpdate (ascii ''data'')
          (days (datetime_sub (clock w) (tld_data_cache_updated m))))]\<rparr>"
  using data_is_not_list by (simp add: update_tld_data_def Let_def)

lemma update_data_stale:
  assumes "\<not> days (datetime_sub (clock w) (tld_data_cache_updated m)) < 7"
  shows "\<exists>lg. effects (update_tld_data E w m (ascii ''data'')) = HttpGetData # lg \<and>
               list_all is_log lg"
proof (cases "wiki w")
  case (WikiJSON j)
  show ?thesis
  proof (cases "parse_text j")
    case (Inl e)
    then show ?thesis using data_is_not_list assms WikiJSON
      by (simp add: update_tld_data_def Let_def)
  next
    case (Inr v)
    then show ?thesis using data_is_not_list assms WikiJSON store_tld_data_effects [of E w m v]
      by (simp add: update_tld_data_def Let_def)
  qed
qed (use data_is_not_list assms in \<open>simp_all add: update_tld_data_def Let_def\<close>)

lemma update_list_unfold:
  "update_tld_data E w m (ascii ''list'') =
     (if days (datetime_sub (clock w) (tld_list_cache_updated m)) < 7
      then \<lparr>raised = None, memory_after = m,
            effects = [Log DEBUG (SkippingCacheUpdate (ascii ''list'')
              (days (datetime_sub (clock w) (tld_list_cache_updated m))))]\<rparr>
      else case iana w of
             IanaRequestException \<Rightarrow>
               \<lparr>raised = None, memory_after = m,
                effects = [HttpGetList, Log WARNING ErrorFetchingList]\<rparr>
           | IanaText t \<Rightarrow>
               \<lparr>raised = None,
                memory_after =
                  m\<lparr>tld_list_cache := parse_tld_list E t, tld_list_cache_updated := clock w\<rparr>,
                effects = [HttpGetList, Log DEBUG (UpdatedCache (ascii ''list''))]\<rparr>)"
  by (simp add: update_tld_data_def Let_def)

lemma list_fetch_iff:
  "HttpGetList \<in> set (effects (update_tld_data E w m (ascii ''list''))) \<longleftrightarrow>
     7 \<le> days (datetime_sub (clock w) (tld_list_cache_updated m))"
  by (simp add: update_list_unfold split: iana_reply.splits)

lemma data_fetch_iff:
  "HttpGetData \<in> set (effects (update_tld_data E w m (ascii ''data''))) \<longleftrightarrow>
     7 \<le> days (datetime_sub (clock w) (tld_data_cache_updated m))"
proof (cases "days (datetime_sub (clock w) (tld_data_cache_updated m)) < 7")
  case True
  then show ?thesis by (simp add: update_data_fresh)
next
  case False
  then show ?thesis using update_data_stale [OF False, of E] by auto
qed

lemma update_list_never_raises: "raised (update_tld_data E w m (ascii ''list'')) = None"
  by (simp add: update_list_unfold split: iana_reply.splits)

lemma update_data_failure:
  assumes "wiki w = WikiRequestException \<or> wiki w = WikiNotJSON \<or>
           (\<exists>j. wiki w = WikiJSON j \<and> parse_text j = Inl KeyError)"
  shows "raised (update_tld_data E w m (ascii ''data'')) = None \<and>
         memory_after (update_tld_data E w m (ascii ''data'')) = m"
  using assms data_is_not_list by (auto simp: update_tld_data_def Let_def)

text \<open>
  A decoded value that is not an object is not among the failures that the \<^verbatim>\<open>try\<close>
  block catches: the \<^verbatim>\<open>TypeError\<close> of the subscript leaves the update, with the
  cache as it was.
\<close>

lemma update_data_type_error:
  "\<not> days (datetime_sub (clock w) (tld_data_cache_updated m)) < 7 \<Longrightarrow> wiki w = WikiJSON (JArr js) \<Longrightarrow>
   update_tld_data E w m (ascii ''data'') =
     \<lparr>raised = Some TypeError, memory_after = m, effects = [HttpGetData]\<rparr>"
  using data_is_not_list by (simp add: update_tld_data_def Let_def parse_text_def)

lemma logs_no_list_fetch: "list_all is_log lg \<Longrightarrow> HttpGetList \<notin> set lg"
  by (induction lg) auto

lemma update_data_no_list_fetch:
  "HttpGetList \<notin> set (effects (update_tld_data E w m (ascii ''data'')))"
proof (cases "days (datetime_sub (clock w) (tld_data_cache_updated m)) < 7")
  case True
  then show ?thesis by (simp add: update_data_fresh)
next
  case False
  from update_data_stale [OF False, of E] obtain lg where
    "effects (update_tld_data E w m (ascii ''data'')) = HttpGetData # lg" "list_all is_log lg"
    by blast
  then show ?thesis using logs_no_list_fetch [of lg] by simp
qed

lemma respond_is_say: "respond E d t \<noteq> HttpGetList" "HttpGetList \<noteq> respond E d t"
  by (simp_all add: respond_def split: option.splits)

lemma validate_list_fetch:
  "HttpGetList \<in> set (effects (validate_and_answer E w m fx t)) \<longleftrightarrow> HttpGetList \<in> set fx"
  using update_data_no_list_fetch [of E w m] respond_is_say
  by (auto simp: validate_and_answer_def ensure_data_def Let_def split: option.splits)

lemma ensure_list_never_raises: "raised (ensure_list E w m) = None"
  by (simp add: ensure_list_def update_list_never_raises)

lemma lookup_some_entries: "lookup_record d t = Some r \<Longrightarrow> entries d \<noteq> []"
  by (auto simp: lookup_record_def dict_get_def split: option.splits)

lemma emptied_memory_eq:
  "emptied_memory = default_memory\<lparr>tld_list_cache := [], tld_list_cache_updated := midnight 2026 1 1\<rparr>"
  by (simp add: emptied_memory_def update_list_unfold empty_reply_world_def default_memory_def
      date_defs parse_tld_list_def splitlines_def)

lemma failing_world_stale:
  "days (datetime_sub (clock failing_world) (tld_list_cache_updated default_memory)) = 8918"
  by (simp add: failing_world_def default_memory_def date_defs)

section \<open>Lemmas on the normalisation\<close>

lemma rev_split: "xs = rev (dropWhile P (rev xs)) @ rev (takeWhile P (rev xs))"
  by (metis rev_append rev_rev_ident takeWhile_dropWhile_id)

lemma strip_chars_decomp:
  "\<exists>pre suf. s = pre @ strip_chars cs s @ suf \<and> set pre \<subseteq> set cs \<and> set suf \<subseteq> set cs"
proof -
  let ?P = "\<lambda>c. c \<in> set cs"
  let ?d = "dropWhile ?P s"
  have 1: "s = takeWhile ?P s @ ?d" by simp
  have 2: "?d = strip_chars cs s @ rev (takeWhile ?P (rev ?d))"
    unfolding strip_chars_def by (rule rev_split)
  have 3: "set (takeWhile ?P s) \<subseteq> set cs" using set_takeWhileD by fastforce
  have 4: "set (rev (takeWhile ?P (rev ?d))) \<subseteq> set cs" using set_takeWhileD by fastforce
  from 1 2 have "s = takeWhile ?P s @ strip_chars cs s @ rev (takeWhile ?P (rev ?d))" by simp
  with 3 4 show ?thesis by blast
qed

lemma strip_chars_ends:
  "strip_chars cs s = [] \<or> (hd (strip_chars cs s) \<notin> set cs \<and> last (strip_chars cs s) \<notin> set cs)"
proof (cases "strip_chars cs s = []")
  case True
  then show ?thesis by simp
next
  case False
  let ?P = "\<lambda>c. c \<in> set cs"
  let ?d = "dropWhile ?P s"
  let ?e = "dropWhile ?P (rev ?d)"
  have core: "strip_chars cs s = rev ?e" by (simp add: strip_chars_def)
  have ene: "?e \<noteq> []" using False core by simp
  then have l: "last (rev ?e) \<notin> set cs" using hd_dropWhile [of ?P "rev ?d"] by (simp add: last_rev)
  have dne: "?d \<noteq> []"
  proof
    assume "?d = []"
    then have "?e = []" by (simp only: rev.simps dropWhile.simps)
    with ene show False by contradiction
  qed
  have "?d = rev ?e @ rev (takeWhile ?P (rev ?d))" by (rule rev_split)
  then have "hd ?d = hd (rev ?e @ rev (takeWhile ?P (rev ?d)))" by simp
  then have "hd ?d = hd (rev ?e)" using ene by simp
  moreover have "hd ?d \<notin> set cs" using hd_dropWhile [of ?P s] dne by simp
  ultimately have "hd (rev ?e) \<notin> set cs" by simp
  with l core show ?thesis by simp
qed

section \<open>Lemmas on the indexer\<close>

lemma dict_get_dict_set:
  "dict_get (dict_set k v d) k' = (if k' = k then Some v else dict_get d k')"
  by (induction d) (auto simp: dict_get_def)

lemma dict_get_store_under:
  "dict_get (store_under ko a e) k' = (if k' \<in> set (key_list ko) then Some a else dict_get e k')"
  by (cases ko) (auto simp: key_list_def dict_get_dict_set)

lemma truthy_key_list: "truthy k \<longleftrightarrow> key_list k \<noteq> []"
  by (cases k) (auto simp: key_list_def)

lemma process_row_keyless:
  "row_keys E row = [] \<Longrightarrow>
   process_row E h st row = (fst st, snd st @ [Log WARNING (SkippingRow row)])"
  by (simp add: process_row_def Let_def row_keys_def truthy_key_list)

lemma process_row_keyed:
  "row_keys E row \<noteq> [] \<Longrightarrow>
   objects (fst (process_row E h st row)) = objects (fst st) @ [zipped h row] \<and>
   snd (process_row E h st row) = snd st \<and>
   (\<forall>k. dict_get (entries (fst (process_row E h st row))) k =
      (if k \<in> set (row_keys E row) then Some (length (objects (fst st)))
       else dict_get (entries (fst st)) k))"
  by (auto simp: process_row_def Let_def row_keys_def truthy_key_list dict_get_store_under)

lemma find_keys_no_match:
  "list_all (\<lambda>cell. r_tld cell = None \<and> r_idn cell = None) row \<Longrightarrow>
   find_keys low (k, i) row = (k, i)"
  by (induction row arbitrary: k i) auto

lemma row_keys_no_match:
  "list_all (\<lambda>cell. r_tld cell = None \<and> r_idn cell = None) row \<Longrightarrow> row_keys E row = []"
  by (simp add: row_keys_def find_keys_no_match key_list_def)

lemma process_row_fst_indep:
  "fst (process_row E h (d, lg) row) = fst (process_row E h (d, lg') row)"
  by (simp add: process_row_def Let_def)

lemma process_rows_fst_indep:
  "fst (foldl (process_row E h) (d, lg) rs) = fst (foldl (process_row E h) (d, lg') rs)"
proof (induction rs arbitrary: d lg lg')
  case Nil
  show ?case by simp
next
  case (Cons r rs)
  obtain d1 l1 where 1: "process_row E h (d, lg) r = (d1, l1)" by (cases "process_row E h (d, lg) r")
  obtain d2 l2 where 2: "process_row E h (d, lg') r = (d2, l2)" by (cases "process_row E h (d, lg') r")
  have "d1 = d2" using process_row_fst_indep [of E h d lg r lg'] 1 2 by simp
  then show ?case using 1 2 Cons [of d1 l1 l2] by simp
qed

lemma process_tables_fst_indep:
  "fst (process_tables E (d, lg) ts) = fst (process_tables E (d, lg') ts)"
proof (induction ts arbitrary: d lg lg')
  case Nil
  show ?case by simp
next
  case (Cons t ts)
  show ?case
  proof (cases t)
    case Nil
    then show ?thesis by simp
  next
    case (Cons h rs)
    obtain d1 l1 where 1: "foldl (process_row E h) (d, lg) rs = (d1, l1)"
      by (cases "foldl (process_row E h) (d, lg) rs")
    obtain d2 l2 where 2: "foldl (process_row E h) (d, lg') rs = (d2, l2)"
      by (cases "foldl (process_row E h) (d, lg') rs")
    have "d1 = d2" using process_rows_fst_indep [of E h d lg rs lg'] 1 2 by simp
    then show ?thesis using 1 2 Cons Cons.IH [of d1 l1 l2] by simp
  qed
qed

lemma process_rows_skip:
  assumes "row_keys E row = []"
  shows "fst (foldl (process_row E h) st (pre @ row # post)) =
         fst (foldl (process_row E h) st (pre @ post))"
proof -
  obtain d lg where s: "foldl (process_row E h) st pre = (d, lg)"
    by (cases "foldl (process_row E h) st pre")
  show ?thesis
    using s process_row_keyless [OF assms, of h "(d, lg)"]
      process_rows_fst_indep [of E h d "lg @ [Log WARNING (SkippingRow row)]" post lg]
    by simp
qed

lemma process_tables_append:
  "process_tables E st (ts1 @ ts2) =
     (case process_tables E st ts1 of
        (Inl e, lg) \<Rightarrow> (Inl e, lg)
      | (Inr d, lg) \<Rightarrow> process_tables E (d, lg) ts2)"
  by (induction E st ts1 rule: process_tables.induct) simp_all

lemma process_tables_skip:
  assumes "row_keys E row = []"
  shows "fst (process_tables E st (ts1 @ (h # pre @ row # post) # ts2)) =
         fst (process_tables E st (ts1 @ (h # pre @ post) # ts2))"
proof -
  obtain r lg where s: "process_tables E st ts1 = (r, lg)" by (cases "process_tables E st ts1")
  show ?thesis
  proof (cases r)
    case (Inl e)
    then show ?thesis using s by (simp add: process_tables_append)
  next
    case (Inr d)
    obtain d1 l1 where 1: "foldl (process_row E h) (d, lg) (pre @ row # post) = (d1, l1)"
      by (cases "foldl (process_row E h) (d, lg) (pre @ row # post)")
    obtain d2 l2 where 2: "foldl (process_row E h) (d, lg) (pre @ post) = (d2, l2)"
      by (cases "foldl (process_row E h) (d, lg) (pre @ post)")
    have "d1 = d2" using process_rows_skip [OF assms, of h "(d, lg)" pre post] 1 2 by simp
    then show ?thesis
      using s Inr 1 2 process_tables_fst_indep [of E d1 l1 ts2 l2]
      by (simp add: process_tables_append)
  qed
qed

lemma get_processed_data_fst:
  "fst (get_processed_data E p) =
     (case finished p of Some d \<Rightarrow> Inr d
      | None \<Rightarrow> fst (process_tables E (empty_tld_data,
          [Log DEBUG ProcessedDataRequested, Log DEBUG EnsuringParsed,
           Log DEBUG ProcessingTables]) (tables p)))"
proof (cases "finished p")
  case (Some d)
  then show ?thesis by (simp add: get_processed_data_def)
next
  case None
  let ?r = "process_tables E (empty_tld_data,
          [Log DEBUG ProcessedDataRequested, Log DEBUG EnsuringParsed,
           Log DEBUG ProcessingTables]) (tables p)"
  show ?thesis using None
    by (cases ?r) (auto simp: get_processed_data_def split: sum.splits)
qed

text \<open>An empty record can come out of the indexer: two headings of the same name.\<close>

lemma empty_record_reachable:
  "fst (process_tables test_ext (empty_tld_data, [])
     [[[ascii ''A'', ascii ''A''], [ascii ''.zz'', [8212]]]]) =
   Inr \<lparr>objects = [[]], entries = [(ascii ''zz'', 0)]\<rparr>"
  by (simp add: process_row_def Let_def empty_tld_data_def test_ext_def lower_ascii_def
      r_tld_def r_idn_def startswith_def isspace_def zipped_def dict_of_def ascii_def)

section \<open>Lemmas on the extractor\<close>

lemma run_events_append:
  "run_events E p (xs @ ys) =
     (case run_events E p xs of Inl e \<Rightarrow> Inl e | Inr q \<Rightarrow> run_events E q ys)"
  by (induction xs arbitrary: p) (auto split: sum.splits)

lemma cell_step:
  assumes "tag = ascii ''td'' \<or> tag = ascii ''th''"
  shows "run_events E (in_table cr rs) (cell_events tag s) = Inr (in_table (cr @ [cell_text E s]) rs)"
  using assms
  by (auto simp: cell_events_def in_table_def handle_starttag_def handle_endtag_def
      handle_data_def)

lemma cells_step:
  assumes "tag = ascii ''td'' \<or> tag = ascii ''th''"
  shows "run_events E (in_table cr rs) (concat (map (cell_events tag) cells)) =
         Inr (in_table (cr @ map (cell_text E) cells) rs)"
proof (induction cells arbitrary: cr)
  case Nil
  show ?case by simp
next
  case (Cons c cells)
  show ?case
    using Cons [of "cr @ [cell_text E c]"] cell_step [OF assms, of E cr rs c]
    by (simp add: run_events_append)
qed

lemma row_step:
  assumes "tag = ascii ''td'' \<or> tag = ascii ''th''"
  shows "run_events E (in_table [] rs) (row_events tag cells) =
         Inr (in_table [] (rs @ [map (cell_text E) cells]))"
proof -
  have s: "handle_event E (in_table [] rs) (StartTag (ascii ''tr'') []) = Inr (in_table [] rs)"
    by (simp add: handle_starttag_def in_table_def ascii_def)
  have e: "handle_event E (in_table (map (cell_text E) cells) rs) (EndTag (ascii ''tr'')) =
      Inr (in_table [] (rs @ [map (cell_text E) cells]))"
    by (simp add: handle_endtag_def in_table_def ascii_def)
  show ?thesis
    using s e cells_step [OF assms, of E "[]" rs cells]
    by (simp add: row_events_def run_events_append)
qed

lemma rows_step:
  assumes "tag = ascii ''td'' \<or> tag = ascii ''th''"
  shows "run_events E (in_table [] rs) (concat (map (row_events tag) rws)) =
         Inr (in_table [] (rs @ map (map (cell_text E)) rws))"
proof (induction rws arbitrary: rs)
  case Nil
  show ?case by simp
next
  case (Cons r rws)
  show ?case
    using Cons [of "rs @ [map (cell_text E) r]"] row_step [OF assms, of E rs r]
    by (simp add: run_events_append)
qed

lemma wikitable_extracted:
  assumes "contains (ascii ''wikitable'') cls"
  shows "run_events E new_parser (wikitable_events cls heading rws) =
         Inr (new_parser\<lparr>tables := [map (cell_text E) heading # map (map (cell_text E)) rws]\<rparr>)"
proof -
  have s: "handle_event E new_parser (StartTag (ascii ''table'') [(ascii ''class'', Some cls)]) =
      Inr (in_table [] [])"
    using assms by (simp add: handle_starttag_def new_parser_def in_table_def) (simp add: ascii_def)
  have h: "run_events E (in_table [] []) (row_events (ascii ''th'') heading) =
      Inr (in_table [] [map (cell_text E) heading])"
    using row_step [of "ascii ''th''" E "[]" heading] by simp
  have r: "run_events E (in_table [] [map (cell_text E) heading])
        (concat (map (row_events (ascii ''td'')) rws)) =
      Inr (in_table [] (map (cell_text E) heading # map (map (cell_text E)) rws))"
    using rows_step [of "ascii ''td''" E "[map (cell_text E) heading]" rws] by simp
  have e: "handle_event E (in_table [] (map (cell_text E) heading # map (map (cell_text E)) rws))
        (EndTag (ascii ''table'')) =
      Inr (new_parser\<lparr>tables := [map (cell_text E) heading # map (map (cell_text E)) rws]\<rparr>)"
    by (simp add: handle_endtag_def new_parser_def in_table_def ascii_def)
  show ?thesis
    using s h r e by (simp add: wikitable_events_def run_events_append)
qed

section \<open>Lemmas on the keys and the store of the index\<close>

lemma process_row_other_key:
  "k \<notin> set (row_keys E row) \<Longrightarrow>
   dict_get (entries (fst (process_row E h st row))) k = dict_get (entries (fst st)) k"
proof (cases "row_keys E row = []")
  case True
  then show ?thesis by (simp add: process_row_keyless)
next
  case False
  assume "k \<notin> set (row_keys E row)"
  then show ?thesis using process_row_keyed [OF False, of h st] by simp
qed

lemma process_row_objects:
  "objects (fst (process_row E h st row)) =
     objects (fst st) @ (if row_keys E row = [] then [] else [zipped h row])"
proof (cases "row_keys E row = []")
  case True
  then show ?thesis by (simp add: process_row_keyless)
next
  case False
  then show ?thesis using process_row_keyed [OF False, of h st] by simp
qed

lemma process_rows_objects:
  "objects (fst (foldl (process_row E h) st rs)) =
     objects (fst st) @ map (zipped h) (filter (\<lambda>r. row_keys E r \<noteq> []) rs)"
  by (induction rs arbitrary: st) (simp_all add: process_row_objects)

lemma process_rows_other_key:
  "list_all (\<lambda>r. k \<notin> set (row_keys E r)) rs \<Longrightarrow>
   dict_get (entries (fst (foldl (process_row E h) st rs))) k = dict_get (entries (fst st)) k"
  by (induction rs arbitrary: st) (simp_all add: process_row_other_key)

lemma process_tables_other_key:
  "process_tables E st ts = (Inr d, lg) \<Longrightarrow>
   list_all (\<lambda>r. k \<notin> set (row_keys E r)) (concat (map tl ts)) \<Longrightarrow>
   dict_get (entries d) k = dict_get (entries (fst st)) k"
proof (induction E st ts rule: process_tables.induct)
  case (1 E st)
  then show ?case by auto
next
  case (2 E st ts)
  then show ?case by simp
next
  case (3 E st headings rs ts)
  then show ?case by (simp add: process_rows_other_key)
qed

lemma process_tables_objects:
  "process_tables E st ts = (Inr d, lg) \<Longrightarrow> \<exists>ys. objects d = objects (fst st) @ ys"
proof (induction E st ts rule: process_tables.induct)
  case (1 E st)
  then show ?case by auto
next
  case (2 E st ts)
  then show ?case by simp
next
  case (3 E st headings rs ts)
  then obtain ys where "objects d = objects (fst (foldl (process_row E headings) st rs)) @ ys"
    by auto
  then show ?case by (simp add: process_rows_objects)
qed

lemma both_keys_step:
  assumes "find_keys (str_lower E) (None, None) row = (Some k, Some i)" "k \<noteq> []" "i \<noteq> []"
  shows "row_keys E row = [k, i]"
  using assms by (simp add: row_keys_def key_list_def)

lemma both_keys_final:
  assumes rk: "row_keys E row = [k, i]"
    and later: "list_all (\<lambda>r. k \<notin> set (row_keys E r) \<and> i \<notin> set (row_keys E r))
              (post @ concat (map tl ts2))"
    and res: "fst (process_tables E st (ts1 @ (h # pre @ row # post) # ts2)) = Inr d"
  shows "\<exists>a. dict_get (entries d) k = Some a \<and> dict_get (entries d) i = Some a \<and>
             a < length (objects d) \<and> objects d ! a = zipped h row"
proof -
  obtain r1 l1 where t1: "process_tables E st ts1 = (r1, l1)" by (cases "process_tables E st ts1")
  from res t1 obtain d1 where r1: "r1 = Inr d1"
    by (cases r1) (simp_all add: process_tables_append)
  obtain d2 l2 where p2: "foldl (process_row E h) (d1, l1) pre = (d2, l2)"
    by (cases "foldl (process_row E h) (d1, l1) pre")
  define st3 where "st3 = process_row E h (d2, l2) row"
  define a where "a = length (objects d2)"
  have ne: "row_keys E row \<noteq> []" using rk by simp
  have o3: "objects (fst st3) = objects d2 @ [zipped h row]"
    and k3: "dict_get (entries (fst st3)) k = Some a"
    and i3: "dict_get (entries (fst st3)) i = Some a"
    using process_row_keyed [OF ne, of h "(d2, l2)"] rk by (simp_all add: st3_def a_def)
  define st4 where "st4 = foldl (process_row E h) st3 post"
  have lp: "list_all (\<lambda>r. k \<notin> set (row_keys E r)) post" "list_all (\<lambda>r. i \<notin> set (row_keys E r)) post"
    and lt: "list_all (\<lambda>r. k \<notin> set (row_keys E r)) (concat (map tl ts2))"
       "list_all (\<lambda>r. i \<notin> set (row_keys E r)) (concat (map tl ts2))"
    using later by (simp_all add: list_all_iff)
  have k4: "dict_get (entries (fst st4)) k = Some a"
    using process_rows_other_key [OF lp(1), of h st3] k3 by (simp add: st4_def)
  have i4: "dict_get (entries (fst st4)) i = Some a"
    using process_rows_other_key [OF lp(2), of h st3] i3 by (simp add: st4_def)
  have o4: "\<exists>ys. objects (fst st4) = objects d2 @ [zipped h row] @ ys"
    using process_rows_objects [of E h st3 post] o3 by (simp add: st4_def)
  have whole: "process_tables E st (ts1 @ (h # pre @ row # post) # ts2) = process_tables E st4 ts2"
    using t1 r1 p2 by (simp add: process_tables_append st4_def st3_def)
  obtain lg where fin: "process_tables E st4 ts2 = (Inr d, lg)"
    using res whole by (cases "process_tables E st4 ts2") simp
  have kd: "dict_get (entries d) k = Some a"
    using process_tables_other_key [OF fin lt(1)] k4 by simp
  have idd: "dict_get (entries d) i = Some a"
    using process_tables_other_key [OF fin lt(2)] i4 by simp
  from process_tables_objects [OF fin] o4 obtain zs where
    od: "objects d = objects d2 @ [zipped h row] @ zs" by auto
  have "a < length (objects d)" and "objects d ! a = zipped h row"
    using od by (simp_all add: a_def nth_append)
  with kd idd show ?thesis by blast
qed

lemma r_tld_nonempty: "r_tld c = Some g \<Longrightarrow> g \<noteq> []"
  by (auto simp: r_tld_def split: list.splits if_splits)

lemma r_idn_nonempty: "r_idn c = Some g \<Longrightarrow> g \<noteq> []"
  by (auto simp: r_idn_def split: if_splits)

lemma next_key:
  assumes low: "\<forall>s. s \<noteq> [] \<longrightarrow> low s \<noteq> []"
    and nonempty: "\<And>g. f c = Some g \<Longrightarrow> g \<noteq> []"
    and key: "key = None \<or> truthy key"
    and key': "key' = (if f c \<noteq> None \<and> \<not> truthy key then map_option low (f c) else key)"
  shows "key' = None \<or> truthy key'"
    and "from_first low key' (first_match f cs) = from_first low key (first_match f (c # cs))"
proof -
  show "key' = None \<or> truthy key'"
  proof (cases "f c")
    case None
    then show ?thesis using key key' by simp
  next
    case (Some g)
    then have "low g \<noteq> []" using low nonempty by blast
    then show ?thesis using key key' Some by (cases key) simp_all
  qed
  show "from_first low key' (first_match f cs) = from_first low key (first_match f (c # cs))"
  proof (cases key)
    case (Some k)
    then show ?thesis using key key' by (simp add: from_first_def)
  next
    case None
    then show ?thesis using key' by (cases "f c") (simp_all add: from_first_def)
  qed
qed

lemma find_keys_first:
  assumes low: "\<forall>s. s \<noteq> [] \<longrightarrow> low s \<noteq> []"
  shows "key = None \<or> truthy key \<Longrightarrow> idn = None \<or> truthy idn \<Longrightarrow>
         find_keys low (key, idn) cells =
           (from_first low key (first_match r_tld cells),
            from_first low idn (first_match r_idn cells))"
proof (induction cells arbitrary: key idn)
  case Nil
  then show ?case by (cases key; cases idn) (simp_all add: from_first_def)
next
  case (Cons c cells)
  define k' where "k' = (if r_tld c \<noteq> None \<and> \<not> truthy key then map_option low (r_tld c) else key)"
  define i' where "i' = (if r_idn c \<noteq> None \<and> \<not> truthy idn then map_option low (r_idn c) else idn)"
  note k1 = next_key(1) [where f = r_tld and c = c, OF low r_tld_nonempty Cons.prems(1) k'_def]
  note k2 = next_key(2) [where f = r_tld and c = c and cs = cells, OF low r_tld_nonempty Cons.prems(1) k'_def]
  note i1 = next_key(1) [where f = r_idn and c = c, OF low r_idn_nonempty Cons.prems(2) i'_def]
  note i2 = next_key(2) [where f = r_idn and c = c and cs = cells, OF low r_idn_nonempty Cons.prems(2) i'_def]
  have "find_keys low (key, idn) (c # cells) = find_keys low (k', i') cells"
    by (simp add: k'_def i'_def)
  also have "\<dots> = (from_first low k' (first_match r_tld cells),
                     from_first low i' (first_match r_idn cells))"
    using k1 i1 by (rule Cons.IH)
  finally show ?case by (simp only: k2 i2)
qed

lemma row_keys_first:
  assumes low: "\<forall>s. s \<noteq> [] \<longrightarrow> str_lower E s \<noteq> []"
  shows "row_keys E r =
     (case first_match r_tld r of None \<Rightarrow> [] | Some g \<Rightarrow> [str_lower E g]) @
     (case first_match r_idn r of None \<Rightarrow> [] | Some g \<Rightarrow> [str_lower E g])"
proof -
  have ne: "first_match f r = Some g \<Longrightarrow> (\<And>c g. f c = Some g \<Longrightarrow> g \<noteq> []) \<Longrightarrow> g \<noteq> []" for f g
    by (induction r) (auto split: option.splits)
  have fk: "find_keys (str_lower E) (None, None) r =
      (map_option (str_lower E) (first_match r_tld r), map_option (str_lower E) (first_match r_idn r))"
    using find_keys_first [OF low, of None None r] by (simp add: from_first_def)
  have a: "key_list (map_option (str_lower E) (first_match r_tld r)) =
      (case first_match r_tld r of None \<Rightarrow> [] | Some g \<Rightarrow> [str_lower E g])"
    using ne [of r_tld] r_tld_nonempty low by (auto simp: key_list_def split: option.splits)
  have b: "key_list (map_option (str_lower E) (first_match r_idn r)) =
      (case first_match r_idn r of None \<Rightarrow> [] | Some g \<Rightarrow> [str_lower E g])"
    using ne [of r_idn] r_idn_nonempty low by (auto simp: key_list_def split: option.splits)
  show ?thesis by (simp add: row_keys_def fk a b)
qed

lemma zipped_values: "list_all (\<lambda>fv. snd fv \<noteq> [] \<and> snd fv \<noteq> [8212]) (zipped h row)"
  by (simp add: zipped_def list_all_iff)

lemma index_invariant:
  fixes E h lg rs
  defines "d \<equiv> fst (foldl (process_row E h) (empty_tld_data, lg) rs)"
  shows "objects d = map (zipped h) (keyed E rs) \<and>
     (\<forall>k a. dict_get (entries d) k = Some a \<longrightarrow>
        a < length (keyed E rs) \<and> k \<in> set (row_keys E (keyed E rs ! a)) \<and>
        (\<forall>j. a < j \<and> j < length (keyed E rs) \<longrightarrow> k \<notin> set (row_keys E (keyed E rs ! j)))) \<and>
     (\<forall>j k. j < length (keyed E rs) \<and> k \<in> set (row_keys E (keyed E rs ! j)) \<longrightarrow>
        dict_get (entries d) k \<noteq> None)"
  unfolding d_def
proof (induction rs rule: rev_induct)
  case Nil
  show ?case by (simp add: keyed_def empty_tld_data_def dict_get_def)
next
  case (snoc r rs)
  let ?st = "foldl (process_row E h) (empty_tld_data, lg) rs"
  let ?d = "fst ?st"
  let ?K = "keyed E rs"
  have f: "foldl (process_row E h) (empty_tld_data, lg) (rs @ [r]) = process_row E h ?st r"
    by simp
  show ?case
  proof (cases "row_keys E r = []")
    case True
    have "fst (process_row E h ?st r) = ?d" using True by (simp add: process_row_keyless)
    moreover have "keyed E (rs @ [r]) = ?K" using True by (simp add: keyed_def)
    ultimately show ?thesis using snoc f by simp
  next
    case False
    let ?d' = "fst (process_row E h ?st r)"
    have K': "keyed E (rs @ [r]) = ?K @ [r]" using False by (simp add: keyed_def)
    have n: "length (objects ?d) = length ?K" using snoc by simp
    have o: "objects ?d' = objects ?d @ [zipped h r]"
      and g: "\<And>k. dict_get (entries ?d') k =
        (if k \<in> set (row_keys E r) then Some (length ?K) else dict_get (entries ?d) k)"
      using process_row_keyed [OF False, of h ?st] n by simp_all
    have 1: "objects ?d' = map (zipped h) (?K @ [r])" using o snoc by simp
    have 2: "\<forall>k a. dict_get (entries ?d') k = Some a \<longrightarrow>
        a < length (?K @ [r]) \<and> k \<in> set (row_keys E ((?K @ [r]) ! a)) \<and>
        (\<forall>j. a < j \<and> j < length (?K @ [r]) \<longrightarrow> k \<notin> set (row_keys E ((?K @ [r]) ! j)))"
    proof (intro allI impI)
      fix k a
      assume s: "dict_get (entries ?d') k = Some a"
      show "a < length (?K @ [r]) \<and> k \<in> set (row_keys E ((?K @ [r]) ! a)) \<and>
        (\<forall>j. a < j \<and> j < length (?K @ [r]) \<longrightarrow> k \<notin> set (row_keys E ((?K @ [r]) ! j)))"
      proof (cases "k \<in> set (row_keys E r)")
        case True
        then have "a = length ?K" using s g by simp
        then show ?thesis using True by auto
      next
        case nk: False
        then have "dict_get (entries ?d) k = Some a" using s g by simp
        then have ih: "a < length ?K" "k \<in> set (row_keys E (?K ! a))"
          "\<forall>j. a < j \<and> j < length ?K \<longrightarrow> k \<notin> set (row_keys E (?K ! j))"
          using snoc by blast+
        have "\<forall>j. a < j \<and> j < length (?K @ [r]) \<longrightarrow> k \<notin> set (row_keys E ((?K @ [r]) ! j))"
        proof (intro allI impI)
          fix j
          assume j: "a < j \<and> j < length (?K @ [r])"
          show "k \<notin> set (row_keys E ((?K @ [r]) ! j))"
          proof (cases "j < length ?K")
            case True
            then show ?thesis using ih(3) j by (simp add: nth_append)
          next
            case False
            then have "j = length ?K" using j by simp
            then show ?thesis using nk by simp
          qed
        qed
        then show ?thesis using ih by (simp add: nth_append)
      qed
    qed
    have 3: "\<forall>j k. j < length (?K @ [r]) \<and> k \<in> set (row_keys E ((?K @ [r]) ! j)) \<longrightarrow>
        dict_get (entries ?d') k \<noteq> None"
    proof (intro allI impI)
      fix j k
      assume a: "j < length (?K @ [r]) \<and> k \<in> set (row_keys E ((?K @ [r]) ! j))"
      show "dict_get (entries ?d') k \<noteq> None"
      proof (cases "k \<in> set (row_keys E r)")
        case True
        then show ?thesis using g by simp
      next
        case nk: False
        have "j < length ?K"
        proof (rule ccontr)
          assume "\<not> j < length ?K"
          then have "j = length ?K" using a by simp
          then show False using a nk by simp
        qed
        then have "dict_get (entries ?d) k \<noteq> None" using a snoc by (simp add: nth_append)
        then show ?thesis using nk g by simp
      qed
    qed
    show ?thesis unfolding f K' by (intro conjI) (rule 1, rule 2, rule 3)
  qed
qed

lemma index_complete:
  assumes inv2: "\<forall>k a. dict_get e k = Some a \<longrightarrow>
        a < length K \<and> k \<in> set (row_keys E (K ! a)) \<and>
        (\<forall>j. a < j \<and> j < length K \<longrightarrow> k \<notin> set (row_keys E (K ! j)))"
    and inv3: "\<forall>j k. j < length K \<and> k \<in> set (row_keys E (K ! j)) \<longrightarrow> dict_get e k \<noteq> None"
    and j: "j < length K" and k: "k \<in> set (row_keys E (K ! j))"
    and last: "\<forall>j'. j < j' \<and> j' < length K \<longrightarrow> k \<notin> set (row_keys E (K ! j'))"
  shows "dict_get e k = Some j"
proof -
  from inv3 j k obtain a where a: "dict_get e k = Some a" by blast
  from inv2 a have 1: "a < length K" and 2: "k \<in> set (row_keys E (K ! a))"
    and 3: "\<forall>j. a < j \<and> j < length K \<longrightarrow> k \<notin> set (row_keys E (K ! j))"
    by blast+
  have "\<not> a < j" using 3 j k by blast
  moreover have "\<not> j < a" using last 1 2 by blast
  ultimately have "a = j" by simp
  with a show ?thesis by simp
qed

section \<open>Evaluation of the examples\<close>

lemmas index_eval =
  process_row_def Let_def empty_tld_data_def test_ext_def lower_ascii_def r_tld_def r_idn_def
  startswith_def isspace_def isalnum_ascii_def zipped_def dict_of_def ascii_def
  get_processed_data_def new_parser_def row_keys_def key_list_def dict_get_def
  lookup_record_def

lemmas cell_eval =
  cell_text_def strip_def test_ext_def isspace_def startswith_def ascii_def

lemma lower_ascii_empty: "\<forall>s. (str_lower test_ext s = []) = (s = [])"
  by (simp add: test_ext_def lower_ascii_def)

lemma sample_heading_text:
  "map (cell_text test_ext) sample_heading = [ascii ''Name'', ascii ''Entity'']"
  by (simp add: sample_heading_def cell_eval)

lemma sample_rows_text: "map (map (cell_text test_ext)) sample_rows = sample_cells"
  by (simp add: sample_rows_def sample_cells_def cell_eval)

lemma sample_keyed:
  "keyed test_ext sample_cells = [[ascii ''.AA'', ascii ''xn--bb''], [ascii ''.cc'', [8212]]]"
  by (simp add: keyed_def sample_cells_def index_eval)

lemma sample_processed:
  "fst (get_processed_data test_ext
     (new_parser\<lparr>tables := [[ascii ''Name'', ascii ''Entity''] # sample_cells]\<rparr>)) = Inr sample_data"
  by (simp add: sample_cells_def sample_data_def index_eval)

section \<open>Lemmas on the failures of a fetch\<close>

text \<open>
  The failures that the \<^verbatim>\<open>except\<close> clauses name: when the request for the list
  raises \<^verbatim>\<open>RequestException\<close>, and when the request for the data raises it, or the
  body of the reply is not JSON, or the decoded object lacks the key \<^verbatim>\<open>parse\<close> or
  \<^verbatim>\<open>text\<close>, the update returns without an exception and leaves the memory as it
  was.
\<close>

lemma caught_failures_keep_cache:
  "(iana w = IanaRequestException \<longrightarrow>
      raised (update_tld_data E w m (ascii ''list'')) = None \<and>
      memory_after (update_tld_data E w m (ascii ''list'')) = m) \<and>
   (wiki w = WikiRequestException \<or> wiki w = WikiNotJSON \<or>
      (\<exists>j. wiki w = WikiJSON j \<and> parse_text j = Inl KeyError) \<longrightarrow>
      raised (update_tld_data E w m (ascii ''data'')) = None \<and>
      memory_after (update_tld_data E w m (ascii ''data'')) = m)"
proof (intro conjI impI)
  assume "iana w = IanaRequestException"
  then show "raised (update_tld_data E w m (ascii ''list'')) = None"
    and "memory_after (update_tld_data E w m (ascii ''list'')) = m"
    by (simp_all add: update_list_unfold)
next
  assume a: "wiki w = WikiRequestException \<or> wiki w = WikiNotJSON \<or>
      (\<exists>j. wiki w = WikiJSON j \<and> parse_text j = Inl KeyError)"
  show "raised (update_tld_data E w m (ascii ''data'')) = None"
    and "memory_after (update_tld_data E w m (ascii ''data'')) = m"
    using update_data_failure [OF a] by simp_all
qed

text \<open>An instance: a first start in a world where both requests fail.\<close>

lemma caught_failures_keep_cache_example:
  "iana failing_world = IanaRequestException \<and> wiki failing_world = WikiNotJSON \<and>
   HttpGetList \<in> set (effects (update_tld_data test_ext failing_world default_memory (ascii ''list''))) \<and>
   raised (update_tld_data test_ext failing_world default_memory (ascii ''list'')) = None \<and>
   memory_after (update_tld_data test_ext failing_world default_memory (ascii ''list'')) = default_memory \<and>
   raised (update_tld_data test_ext failing_world default_memory (ascii ''data'')) = None \<and>
   memory_after (update_tld_data test_ext failing_world default_memory (ascii ''data'')) = default_memory"
proof -
  have i: "iana failing_world = IanaRequestException" and k: "wiki failing_world = WikiNotJSON"
    by (simp_all add: failing_world_def)
  have f: "HttpGetList \<in> set (effects (update_tld_data test_ext failing_world default_memory (ascii ''list'')))"
    by (simp add: list_fetch_iff failing_world_stale)
  show ?thesis
    using caught_failures_keep_cache [of failing_world test_ext default_memory] i k f by simp
qed

section \<open>Lemmas on the rendering\<close>

lemma field_items_of_pairs:
  assumes "distinct (map fst r)"
  shows "set xs \<subseteq> set r \<Longrightarrow>
         field_items r (map fst xs) =
           map (\<lambda>fv. fst fv @ ascii '': '' @ snd fv) (filter (\<lambda>fv. snd fv \<noteq> []) xs)"
proof (induction xs)
  case Nil
  show ?case by (simp add: field_items_def)
next
  case (Cons x xs)
  have "(fst x, snd x) \<in> set r" using Cons.prems by simp
  then have g: "dict_get r (fst x) = Some (snd x)"
    using assms by (simp add: dict_get_def)
  have "field_items r (map fst (x # xs)) =
      (if snd x \<noteq> [] then [fst x @ ascii '': '' @ snd x] else []) @ field_items r (map fst xs)"
    using g by (simp add: field_items_def)
  then show ?case using Cons by simp
qed

lemma field_items_filter:
  assumes "distinct (map fst r)"
  shows "field_items r (filter q (map fst r)) =
           map (\<lambda>fv. fst fv @ ascii '': '' @ snd fv)
             (filter (\<lambda>fv. q (fst fv) \<and> snd fv \<noteq> []) r)"
proof -
  have "filter q (map fst r) = map fst (filter (\<lambda>fv. q (fst fv)) r)"
    by (simp add: filter_map comp_def)
  then show ?thesis
    using field_items_of_pairs [OF assms, of "filter (\<lambda>fv. q (fst fv)) r"]
    by (auto simp: conj_commute)
qed

lemma field_items_append: "field_items r (xs @ ys) = field_items r xs @ field_items r ys"
  by (simp add: field_items_def)

section \<open>The claims\<close>

text \<open>
  Claim C3. A dataset is stale exactly when \<^verbatim>\<open>(now - updatedAt).days >= 7\<close>: the update
  of the list sends its request exactly then, and so does the update of the data. A cache
  that is exactly 6 days old is not fetched again, one that is exactly 7 days old is.
\<close>

theorem stale_iff_seven_days:
  "(HttpGetList \<in> set (effects (update_tld_data E w m (ascii ''list''))) \<longleftrightarrow>
      7 \<le> days (datetime_sub (clock w) (tld_list_cache_updated m))) \<and>
   (HttpGetData \<in> set (effects (update_tld_data E w m (ascii ''data''))) \<longleftrightarrow>
      7 \<le> days (datetime_sub (clock w) (tld_data_cache_updated m))) \<and>
   days (datetime_sub (midnight 2024 1 7) (midnight 2024 1 1)) = 6 \<and>
   HttpGetList \<notin> set (effects (update_tld_data E (w\<lparr>clock := midnight 2024 1 7\<rparr>)
      (m\<lparr>tld_list_cache_updated := midnight 2024 1 1\<rparr>) (ascii ''list''))) \<and>
   HttpGetData \<notin> set (effects (update_tld_data E (w\<lparr>clock := midnight 2024 1 7\<rparr>)
      (m\<lparr>tld_data_cache_updated := midnight 2024 1 1\<rparr>) (ascii ''data''))) \<and>
   days (datetime_sub (midnight 2024 1 8) (midnight 2024 1 1)) = 7 \<and>
   HttpGetList \<in> set (effects (update_tld_data E (w\<lparr>clock := midnight 2024 1 8\<rparr>)
      (m\<lparr>tld_list_cache_updated := midnight 2024 1 1\<rparr>) (ascii ''list''))) \<and>
   HttpGetData \<in> set (effects (update_tld_data E (w\<lparr>clock := midnight 2024 1 8\<rparr>)
      (m\<lparr>tld_data_cache_updated := midnight 2024 1 1\<rparr>) (ascii ''data'')))"
proof -
  have six: "days (datetime_sub (midnight 2024 1 7) (midnight 2024 1 1)) = 6"
    by (simp add: date_defs)
  have seven: "days (datetime_sub (midnight 2024 1 8) (midnight 2024 1 1)) = 7"
    by (simp add: date_defs)
  show ?thesis
    unfolding list_fetch_iff data_fetch_iff using six seven by simp
qed

text \<open>
  Claim C7, as the code has it. With nothing stored, \<^verbatim>\<open>setup\<close> loads an empty list,
  an empty record index and, for both timestamps, the text \<^verbatim>\<open>2000-01-01 00:00:00\<close>,
  which \<^verbatim>\<open>strptime\<close> parses into the first of January 2000 at midnight.
\<close>

theorem setup_defaults:
  "setup_tld E no_stored_values =
     Inr \<lparr>tld_list_cache = [], tld_list_cache_updated = midnight 2000 1 1,
          tld_data_cache = \<lparr>objects = [], entries = []\<rparr>,
          tld_data_cache_updated = midnight 2000 1 1\<rparr> \<and>
   strptime (unicode_digit E) (ascii ''2000-01-01 00:00:00'') = Inr (midnight 2000 1 1)"
  by (simp add: setup_tld_def get_plugin_value_def strptime_default empty_tld_data_def
      no_stored_values_def)

text \<open>
  Claim C7 as the spec states it fails: the timestamps that \<^verbatim>\<open>setup\<close> loads when
  nothing is stored are of the year 2000, not 1970.
\<close>

theorem setup_defaults_counterexample:
  "setup_tld test_ext no_stored_values = Inr default_memory \<and>
   year (tld_list_cache_updated default_memory) \<noteq> 1970 \<and>
   year (tld_data_cache_updated default_memory) \<noteq> 1970"
  by (simp add: setup_tld_def get_plugin_value_def strptime_default empty_tld_data_def
      no_stored_values_def default_memory_def midnight_def)

text \<open>
  Claim C6, as the code has it. The token that \<^verbatim>\<open>gettld\<close> validates and looks up
  is the raw token with its dots removed at BOTH ends, lowercased: the raw token is some
  dots, the stripped token, and some dots, and the stripped token neither starts nor ends
  with a dot.
\<close>

theorem normalize_strips_both_ends:
  "gettld E w1 w2 m (Some (c # cs)) = resolve_token E w1 w2 m (normalize_tld E (c # cs)) \<and>
   normalize_tld E raw = str_lower E (strip_chars [46] raw) \<and>
   (\<exists>pre suf. raw = pre @ strip_chars [46] raw @ suf \<and> set pre \<subseteq> {46} \<and> set suf \<subseteq> {46}) \<and>
   (strip_chars [46] raw = [] \<or>
      (hd (strip_chars [46] raw) \<noteq> 46 \<and> last (strip_chars [46] raw) \<noteq> 46))"
proof -
  have a: "ascii ''.'' = [46]" by (simp add: ascii_def)
  have 1: "gettld E w1 w2 m (Some (c # cs)) = resolve_token E w1 w2 m (normalize_tld E (c # cs))"
    by (simp add: gettld_def)
  have 2: "normalize_tld E raw = str_lower E (strip_chars [46] raw)"
    by (simp add: normalize_tld_def a)
  have 3: "\<exists>pre suf. raw = pre @ strip_chars [46] raw @ suf \<and> set pre \<subseteq> {46} \<and> set suf \<subseteq> {46}"
    using strip_chars_decomp [of raw "[46]"] by simp
  have 4: "strip_chars [46] raw = [] \<or>
      (hd (strip_chars [46] raw) \<noteq> 46 \<and> last (strip_chars [46] raw) \<noteq> 46)"
    using strip_chars_ends [of "[46]" raw] by simp
  from 1 2 3 4 show ?thesis by blast
qed

text \<open>
  Claim C6 as the spec states it fails: the trailing dot of \<^verbatim>\<open>com.\<close> is removed,
  where the claim keeps it.
\<close>

theorem normalize_counterexample:
  "normalize_tld test_ext (ascii ''com.'') = ascii ''com'' \<and>
   claimed_normalize_tld test_ext (ascii ''com.'') = ascii ''com.''"
  by (simp add: normalize_tld_def claimed_normalize_tld_def test_ext_def lower_ascii_def
      strip_chars_def lstrip_chars_def ascii_def)

text \<open>
  Claim C8, as the code has it. With a non-empty token and an empty list cache,
  \<^verbatim>\<open>gettld\<close> runs the update of the list before it validates the token, against
  the memory that the update leaves; the update sends the request exactly when the
  timestamp of the list is at least 7 days old.
\<close>

theorem empty_list_cache_runs_update:
  "tld_list_cache m = [] \<Longrightarrow>
   gettld E w1 w2 m (Some (c # cs)) =
     validate_and_answer E w2 (memory_after (update_tld_data E w1 m (ascii ''list'')))
       (effects (update_tld_data E w1 m (ascii ''list''))) (normalize_tld E (c # cs)) \<and>
   (HttpGetList \<in> set (effects (gettld E w1 w2 m (Some (c # cs)))) \<longleftrightarrow>
      7 \<le> days (datetime_sub (clock w1) (tld_list_cache_updated m)))"
proof -
  assume e: "tld_list_cache m = []"
  have g: "gettld E w1 w2 m (Some (c # cs)) =
     validate_and_answer E w2 (memory_after (update_tld_data E w1 m (ascii ''list'')))
       (effects (update_tld_data E w1 m (ascii ''list''))) (normalize_tld E (c # cs))"
    using e update_list_never_raises [of E w1 m]
    by (simp add: gettld_def resolve_token_def ensure_list_def Let_def)
  show ?thesis
    unfolding g validate_list_fetch list_fetch_iff by simp
qed

text \<open>Witness of C8: the memory of the counterexample below, one day after the update.\<close>

theorem empty_list_cache_runs_update_witness:
  "tld_list_cache emptied_memory = [] \<and>
   gettld test_ext next_day_world next_day_world emptied_memory (Some (ascii ''com'')) =
     validate_and_answer test_ext next_day_world
       (memory_after (update_tld_data test_ext next_day_world emptied_memory (ascii ''list'')))
       (effects (update_tld_data test_ext next_day_world emptied_memory (ascii ''list'')))
       (normalize_tld test_ext (ascii ''com'')) \<and>
   (HttpGetList \<in> set (effects (gettld test_ext next_day_world next_day_world emptied_memory
       (Some (ascii ''com'')))) \<longleftrightarrow>
      7 \<le> days (datetime_sub (clock next_day_world) (tld_list_cache_updated emptied_memory)))"
proof -
  have l: "tld_list_cache emptied_memory = []"
    by (simp add: emptied_memory_eq default_memory_def)
  have c: "ascii ''com'' = 99 # [111, 109]" by (simp add: ascii_def)
  note w = empty_list_cache_runs_update
    [OF l, of test_ext next_day_world next_day_world 99 "[111, 109]", folded c]
  show ?thesis using l w by blast
qed

text \<open>
  Claim C8 as the spec states it fails. After a first start the registry answers with an
  empty text: the list cache is empty and its timestamp is new. A query on the next day
  finds the cache empty, runs the update, and the update skips the request.
\<close>

theorem forced_refetch_counterexample:
  "setup_tld test_ext no_stored_values = Inr default_memory \<and>
   memory_after (update_tld_data test_ext empty_reply_world default_memory (ascii ''list'')) =
     emptied_memory \<and>
   tld_list_cache emptied_memory = [] \<and>
   effects (gettld test_ext next_day_world next_day_world emptied_memory (Some (ascii ''com''))) =
     [Log DEBUG (SkippingCacheUpdate (ascii ''list'') 1), Reply (msg_not_valid (ascii ''com''))] \<and>
   HttpGetList \<notin> set (effects (gettld test_ext next_day_world next_day_world emptied_memory
     (Some (ascii ''com''))))"
proof -
  have s: "setup_tld test_ext no_stored_values = Inr default_memory"
    by (simp add: setup_tld_def get_plugin_value_def strptime_default empty_tld_data_def
        no_stored_values_def default_memory_def)
  have n: "normalize_tld test_ext (ascii ''com'') = ascii ''com''"
    by (simp add: normalize_tld_def test_ext_def lower_ascii_def strip_chars_def ascii_def)
  have t: "idna_ToASCII test_ext (ascii ''com'') = Some (ascii ''com'')"
    by (simp add: test_ext_def toascii_ascii_def ascii_def)
  have d: "days (datetime_sub (clock next_day_world) (tld_list_cache_updated emptied_memory)) = 1"
    by (simp add: emptied_memory_eq next_day_world_def default_memory_def date_defs)
  have u: "update_tld_data test_ext next_day_world emptied_memory (ascii ''list'') =
      \<lparr>raised = None, memory_after = emptied_memory,
       effects = [Log DEBUG (SkippingCacheUpdate (ascii ''list'') 1)]\<rparr>"
    by (simp add: update_list_unfold d)
  have l: "tld_list_cache emptied_memory = []"
    by (simp add: emptied_memory_eq default_memory_def)
  have g: "effects (gettld test_ext next_day_world next_day_world emptied_memory (Some (ascii ''com''))) =
     [Log DEBUG (SkippingCacheUpdate (ascii ''list'') 1), Reply (msg_not_valid (ascii ''com''))]"
    using n t l u
    by (simp add: gettld_def resolve_token_def ensure_list_def validate_and_answer_def Let_def)
       (simp add: ascii_def)
  show ?thesis using s l g by (simp add: emptied_memory_def)
qed

text \<open>
  Claim C9. A row none of whose cells starts with a \<^verbatim>\<open>.suffix\<close> token or an
  \<^verbatim>\<open>xn--\<close> token is skipped: the indexer logs the warning and leaves the
  records and the mapping as they were, and the processed data of the tables is what it
  is without the row (the same mapping, or the same exception of another table).
\<close>

theorem keyless_row_skipped:
  "list_all (\<lambda>cell. r_tld cell = None \<and> r_idn cell = None) row \<Longrightarrow>
   process_row E h st row = (fst st, snd st @ [Log WARNING (SkippingRow row)]) \<and>
   fst (get_processed_data E (p\<lparr>tables := ts1 @ (h # pre @ row # post) # ts2\<rparr>)) =
   fst (get_processed_data E (p\<lparr>tables := ts1 @ (h # pre @ post) # ts2\<rparr>))"
proof -
  assume a: "list_all (\<lambda>cell. r_tld cell = None \<and> r_idn cell = None) row"
  have k: "row_keys E row = []" using a by (rule row_keys_no_match)
  show ?thesis
    using process_row_keyless [OF k] process_tables_skip [OF k]
    by (simp add: get_processed_data_fst split: option.splits)
qed

text \<open>Witness of C9: a row of two plain words after a row with a key.\<close>

theorem keyless_row_skipped_witness:
  "list_all (\<lambda>cell. r_tld cell = None \<and> r_idn cell = None) [ascii ''foo'', ascii ''bar''] \<and>
   process_row test_ext [ascii ''Name'', ascii ''Entity''] (empty_tld_data, [])
       [ascii ''foo'', ascii ''bar''] =
     (fst (empty_tld_data, [] :: effect list),
      snd (empty_tld_data, [] :: effect list) @ [Log WARNING (SkippingRow [ascii ''foo'', ascii ''bar''])]) \<and>
   fst (get_processed_data test_ext (new_parser\<lparr>tables := [] @
       ([ascii ''Name'', ascii ''Entity''] # [[ascii ''.aa'', ascii ''x'']] @
          [ascii ''foo'', ascii ''bar''] # []) # []\<rparr>)) =
   fst (get_processed_data test_ext (new_parser\<lparr>tables := [] @
       ([ascii ''Name'', ascii ''Entity''] # [[ascii ''.aa'', ascii ''x'']] @ []) # []\<rparr>))"
proof -
  have h: "list_all (\<lambda>cell. r_tld cell = None \<and> r_idn cell = None) [ascii ''foo'', ascii ''bar'']"
    by (simp add: r_tld_def r_idn_def ascii_def startswith_def)
  note w = keyless_row_skipped [OF h, where E = test_ext
        and h = "[ascii ''Name'', ascii ''Entity'']" and st = "(empty_tld_data, [])"
        and p = new_parser and ?ts1.0 = "[]" and pre = "[[ascii ''.aa'', ascii ''x'']]"
        and post = "[]" and ?ts2.0 = "[]"]
  from h w show ?thesis by (rule conjI)
qed

text \<open>
  Claim C10. For a token that passes the validation against the list, when the index holds
  an empty record under the token, \<^verbatim>\<open>gettld\<close> says that the domain exists but that
  no details could be found, and nothing else; that is what it says for a token that the
  index does not hold.
\<close>

theorem empty_record_no_details:
  "tld = normalize_tld E (c # cs) \<Longrightarrow>
   m1 = memory_after (ensure_list E w1 m) \<Longrightarrow>
   idna_ToASCII E tld = Some a \<Longrightarrow>
   tld \<in> set (tld_list_cache m1) \<or> a \<in> set (tld_list_cache m1) \<Longrightarrow>
   lookup_record (tld_data_cache m1) tld = Some [] \<Longrightarrow>
   gettld E w1 w2 m (Some (c # cs)) =
     \<lparr>raised = None, memory_after = m1,
      effects = effects (ensure_list E w1 m) @ [Say (msg_no_details tld)]\<rparr> \<and>
   respond E (tld_data_cache m1) tld = Say (msg_no_details tld) \<and>
   (lookup_record d tld = None \<longrightarrow> respond E d tld = respond E (tld_data_cache m1) tld)"
proof -
  assume t: "tld = normalize_tld E (c # cs)" and m1: "m1 = memory_after (ensure_list E w1 m)"
    and a: "idna_ToASCII E tld = Some a"
    and v: "tld \<in> set (tld_list_cache m1) \<or> a \<in> set (tld_list_cache m1)"
    and l: "lookup_record (tld_data_cache m1) tld = Some []"
  have ne: "entries (tld_data_cache m1) \<noteq> []" using l by (rule lookup_some_entries)
  have r: "respond E (tld_data_cache m1) tld = Say (msg_no_details tld)"
    using l by (simp add: respond_def)
  have va: "validate_and_answer E w2 m1 fx tld =
      \<lparr>raised = None, memory_after = m1, effects = fx @ [Say (msg_no_details tld)]\<rparr>" for fx
    using a v ne r by (auto simp: validate_and_answer_def ensure_data_def Let_def)
  have g: "gettld E w1 w2 m (Some (c # cs)) =
     \<lparr>raised = None, memory_after = m1,
      effects = effects (ensure_list E w1 m) @ [Say (msg_no_details tld)]\<rparr>"
    using ensure_list_never_raises [of E w1 m] va t m1
    by (simp add: gettld_def resolve_token_def Let_def)
  have ab: "lookup_record d tld = None \<longrightarrow> respond E d tld = respond E (tld_data_cache m1) tld"
    using r by (simp add: respond_def)
  from g r ab show ?thesis by blast
qed

text \<open>Witness of C10: the token \<^verbatim>\<open>.ZZ\<close> and an index with an empty record for it.\<close>

theorem empty_record_no_details_witness:
  "ascii ''zz'' = normalize_tld test_ext (46 # [90, 90]) \<and>
   zz_memory = memory_after (ensure_list test_ext next_day_world zz_memory) \<and>
   idna_ToASCII test_ext (ascii ''zz'') = Some (ascii ''zz'') \<and>
   ascii ''zz'' \<in> set (tld_list_cache zz_memory) \<and>
   lookup_record (tld_data_cache zz_memory) (ascii ''zz'') = Some [] \<and>
   gettld test_ext next_day_world next_day_world zz_memory (Some (46 # [90, 90])) =
     \<lparr>raised = None, memory_after = zz_memory,
      effects = effects (ensure_list test_ext next_day_world zz_memory) @
        [Say (msg_no_details (ascii ''zz''))]\<rparr> \<and>
   respond test_ext (tld_data_cache zz_memory) (ascii ''zz'') = Say (msg_no_details (ascii ''zz'')) \<and>
   lookup_record empty_tld_data (ascii ''zz'') = None \<and>
   respond test_ext empty_tld_data (ascii ''zz'') =
     respond test_ext (tld_data_cache zz_memory) (ascii ''zz'')"
proof -
  have 1: "ascii ''zz'' = normalize_tld test_ext (46 # [90, 90])"
    by (simp add: normalize_tld_def test_ext_def lower_ascii_def strip_chars_def ascii_def)
  have 2: "zz_memory = memory_after (ensure_list test_ext next_day_world zz_memory)"
    by (simp add: ensure_list_def zz_memory_def)
  have 3: "idna_ToASCII test_ext (ascii ''zz'') = Some (ascii ''zz'')"
    by (simp add: test_ext_def toascii_ascii_def ascii_def)
  have 4: "ascii ''zz'' \<in> set (tld_list_cache zz_memory)"
    by (simp add: zz_memory_def)
  have 5: "lookup_record (tld_data_cache zz_memory) (ascii ''zz'') = Some []"
    by (simp add: zz_memory_def lookup_record_def dict_get_def)
  have 6: "lookup_record empty_tld_data (ascii ''zz'') = None"
    by (simp add: empty_tld_data_def lookup_record_def dict_get_def)
  note w = empty_record_no_details [OF 1 2 3 disjI1 [OF 4] 5,
      where ?w2.0 = next_day_world and d = empty_tld_data]
  show ?thesis using 1 2 3 4 5 6 w by blast
qed

text \<open>
  Claim C1, as the code has it. For every well-formed table of a class that contains
  \<^verbatim>\<open>wikitable\<close> (of two columns or of any other number), the extractor gives one
  table: the stripped heading and the stripped rows. The indexer then builds exactly one
  record for each data row that yields a key, in the order of the rows. A key of the mapping
  holds the record of a row that yields the key, and a row's key holds the row's record
  unless a later row yields the same key. The keys of a row are the lowercased FIRST
  \<^verbatim>\<open>.suffix\<close> token and the lowercased FIRST \<^verbatim>\<open>xn--\<close> token along its cells.
  No record has a field whose value is empty or the em dash.
\<close>

theorem wikitable_one_record_per_keyed_row:
  "contains (ascii ''wikitable'') cls \<Longrightarrow> \<forall>s. (str_lower E s = []) = (s = []) \<Longrightarrow>
   H = map (cell_text E) heading \<Longrightarrow> R = map (map (cell_text E)) rws \<Longrightarrow> K = keyed E R \<Longrightarrow>
   \<exists>d. run_events E new_parser (wikitable_events cls heading rws) =
         Inr (new_parser\<lparr>tables := [H # R]\<rparr>) \<and>
       fst (get_processed_data E (new_parser\<lparr>tables := [H # R]\<rparr>)) = Inr d \<and>
       objects d = map (zipped H) K \<and>
       (\<forall>k a. dict_get (entries d) k = Some a \<longrightarrow>
          a < length K \<and> k \<in> set (row_keys E (K ! a))) \<and>
       (\<forall>j k. j < length K \<and> k \<in> set (row_keys E (K ! j)) \<and>
          (\<forall>j'. j < j' \<and> j' < length K \<longrightarrow> k \<notin> set (row_keys E (K ! j'))) \<longrightarrow>
          dict_get (entries d) k = Some j) \<and>
       (\<forall>r. row_keys E r =
          (case first_match r_tld r of None \<Rightarrow> [] | Some g \<Rightarrow> [str_lower E g]) @
          (case first_match r_idn r of None \<Rightarrow> [] | Some g \<Rightarrow> [str_lower E g])) \<and>
       list_all (list_all (\<lambda>fv. snd fv \<noteq> [] \<and> snd fv \<noteq> [8212])) (objects d)"
proof -
  assume w: "contains (ascii ''wikitable'') cls" and le: "\<forall>s. (str_lower E s = []) = (s = [])"
    and H: "H = map (cell_text E) heading" and R: "R = map (map (cell_text E)) rws"
    and K: "K = keyed E R"
  let ?lg = "[Log DEBUG ProcessedDataRequested, Log DEBUG EnsuringParsed,
           Log DEBUG ProcessingTables]"
  define d where "d = fst (foldl (process_row E H) (empty_tld_data, ?lg) R)"
  have low: "\<forall>s. s \<noteq> [] \<longrightarrow> str_lower E s \<noteq> []" using le by simp
  have 1: "run_events E new_parser (wikitable_events cls heading rws) =
         Inr (new_parser\<lparr>tables := [H # R]\<rparr>)"
    using wikitable_extracted [OF w] H R by simp
  have 2: "fst (get_processed_data E (new_parser\<lparr>tables := [H # R]\<rparr>)) = Inr d"
    by (simp add: get_processed_data_fst new_parser_def d_def)
  note inv = index_invariant [of E H ?lg R, folded d_def K]
  have 3: "objects d = map (zipped H) K" using inv by blast
  have i2: "\<forall>k a. dict_get (entries d) k = Some a \<longrightarrow>
        a < length K \<and> k \<in> set (row_keys E (K ! a)) \<and>
        (\<forall>j. a < j \<and> j < length K \<longrightarrow> k \<notin> set (row_keys E (K ! j)))"
    using inv by blast
  have i3: "\<forall>j k. j < length K \<and> k \<in> set (row_keys E (K ! j)) \<longrightarrow> dict_get (entries d) k \<noteq> None"
    using inv by blast
  have 4: "\<forall>k a. dict_get (entries d) k = Some a \<longrightarrow>
          a < length K \<and> k \<in> set (row_keys E (K ! a))"
    using i2 by blast
  have 5: "\<forall>j k. j < length K \<and> k \<in> set (row_keys E (K ! j)) \<and>
          (\<forall>j'. j < j' \<and> j' < length K \<longrightarrow> k \<notin> set (row_keys E (K ! j'))) \<longrightarrow>
          dict_get (entries d) k = Some j"
    using index_complete [OF i2 i3] by blast
  have 6: "\<forall>r. row_keys E r =
          (case first_match r_tld r of None \<Rightarrow> [] | Some g \<Rightarrow> [str_lower E g]) @
          (case first_match r_idn r of None \<Rightarrow> [] | Some g \<Rightarrow> [str_lower E g])"
    using row_keys_first [OF low] by blast
  have 7: "list_all (list_all (\<lambda>fv. snd fv \<noteq> [] \<and> snd fv \<noteq> [8212])) (objects d)"
    unfolding 3 by (simp add: list_all_iff zipped_def)
  show ?thesis
    by (rule exI [of _ d]) (intro conjI; fact)
qed

text \<open>
  Witness of C1: a table of class \<^verbatim>\<open>wikitable sortable\<close> with padded cells, a row
  without a key and a placeholder value.
\<close>

theorem wikitable_one_record_per_keyed_row_witness:
  "contains (ascii ''wikitable'') (ascii ''wikitable sortable'') \<and>
   (\<forall>s. (str_lower test_ext s = []) = (s = [])) \<and>
   [ascii ''Name'', ascii ''Entity''] = map (cell_text test_ext) sample_heading \<and>
   sample_cells = map (map (cell_text test_ext)) sample_rows \<and>
   [[ascii ''.AA'', ascii ''xn--bb''], [ascii ''.cc'', [8212]]] = keyed test_ext sample_cells \<and>
   fst (get_processed_data test_ext
     (new_parser\<lparr>tables := [[ascii ''Name'', ascii ''Entity''] # sample_cells]\<rparr>)) = Inr sample_data \<and>
   (\<exists>d. run_events test_ext new_parser
           (wikitable_events (ascii ''wikitable sortable'') sample_heading sample_rows) =
         Inr (new_parser\<lparr>tables := [[ascii ''Name'', ascii ''Entity''] # sample_cells]\<rparr>) \<and>
       fst (get_processed_data test_ext
         (new_parser\<lparr>tables := [[ascii ''Name'', ascii ''Entity''] # sample_cells]\<rparr>)) = Inr d \<and>
       objects d = map (zipped [ascii ''Name'', ascii ''Entity''])
         [[ascii ''.AA'', ascii ''xn--bb''], [ascii ''.cc'', [8212]]] \<and>
       list_all (list_all (\<lambda>fv. snd fv \<noteq> [] \<and> snd fv \<noteq> [8212])) (objects d))"
proof -
  have 1: "contains (ascii ''wikitable'') (ascii ''wikitable sortable'')"
    by (simp add: startswith_def ascii_def)
  note 2 = lower_ascii_empty
  note 3 = sample_heading_text [symmetric]
  note 4 = sample_rows_text [symmetric]
  note 5 = sample_keyed [symmetric]
  note w = wikitable_one_record_per_keyed_row [OF 1 2 3 4 5]
  from w obtain d where d:
    "run_events test_ext new_parser
           (wikitable_events (ascii ''wikitable sortable'') sample_heading sample_rows) =
         Inr (new_parser\<lparr>tables := [[ascii ''Name'', ascii ''Entity''] # sample_cells]\<rparr>)"
    "fst (get_processed_data test_ext
         (new_parser\<lparr>tables := [[ascii ''Name'', ascii ''Entity''] # sample_cells]\<rparr>)) = Inr d"
    "objects d = map (zipped [ascii ''Name'', ascii ''Entity''])
         [[ascii ''.AA'', ascii ''xn--bb''], [ascii ''.cc'', [8212]]]"
    "list_all (list_all (\<lambda>fv. snd fv \<noteq> [] \<and> snd fv \<noteq> [8212])) (objects d)"
    by blast
  from 1 2 3 4 5 sample_processed d show ?thesis by blast
qed

text \<open>
  Claim C1 as the spec states it fails: the row \<^verbatim>\<open>(.aa, .bb)\<close> holds two suffix
  tokens, and the mapping has the key \<^verbatim>\<open>aa\<close> only.
\<close>

theorem every_suffix_token_counterexample:
  "run_events test_ext new_parser
     (wikitable_events (ascii ''wikitable'') [ascii ''Name'', ascii ''Entity''] two_suffix_rows) =
     Inr (new_parser\<lparr>tables := [[ascii ''Name'', ascii ''Entity''] # two_suffix_rows]\<rparr>) \<and>
   fst (get_processed_data test_ext
     (new_parser\<lparr>tables := [[ascii ''Name'', ascii ''Entity''] # two_suffix_rows]\<rparr>)) =
     Inr \<lparr>objects = [[(ascii ''Name'', ascii ''.aa''), (ascii ''Entity'', ascii ''.bb'')]],
          entries = [(ascii ''aa'', 0)]\<rparr> \<and>
   r_tld (ascii ''.bb'') = Some (ascii ''bb'') \<and>
   dict_get [(ascii ''aa'', 0 :: nat)] (ascii ''bb'') = None"
proof -
  have w: "contains (ascii ''wikitable'') (ascii ''wikitable'')"
    by (simp add: startswith_def ascii_def)
  have h: "map (cell_text test_ext) [ascii ''Name'', ascii ''Entity''] = [ascii ''Name'', ascii ''Entity'']"
    by (simp add: cell_eval)
  have r: "map (map (cell_text test_ext)) two_suffix_rows = two_suffix_rows"
    by (simp add: two_suffix_rows_def cell_eval)
  have 1: "run_events test_ext new_parser
     (wikitable_events (ascii ''wikitable'') [ascii ''Name'', ascii ''Entity''] two_suffix_rows) =
     Inr (new_parser\<lparr>tables := [[ascii ''Name'', ascii ''Entity''] # two_suffix_rows]\<rparr>)"
    using wikitable_extracted [OF w, of test_ext "[ascii ''Name'', ascii ''Entity'']" two_suffix_rows]
    by (simp only: h r)
  have 2: "fst (get_processed_data test_ext
     (new_parser\<lparr>tables := [[ascii ''Name'', ascii ''Entity''] # two_suffix_rows]\<rparr>)) =
     Inr \<lparr>objects = [[(ascii ''Name'', ascii ''.aa''), (ascii ''Entity'', ascii ''.bb'')]],
          entries = [(ascii ''aa'', 0)]\<rparr>"
    by (simp add: two_suffix_rows_def index_eval)
  have 3: "r_tld (ascii ''.bb'') = Some (ascii ''bb'')"
    by (simp add: r_tld_def isspace_def ascii_def)
  have 4: "dict_get [(ascii ''aa'', 0 :: nat)] (ascii ''bb'') = None"
    by (simp add: dict_get_def ascii_def)
  from 1 2 3 4 show ?thesis by blast
qed

text \<open>
  Claim C4, as the code has it. When the indexer derives both a plain key and an IDNA key
  from a row, it stores the address of the one record it has just built under both keys;
  and when no later row yields one of the two keys again, both keys of the processed
  mapping hold that same object, the record of the row.
\<close>

theorem both_keys_same_object:
  "find_keys (str_lower E) (None, None) row = (Some k, Some i) \<Longrightarrow> k \<noteq> [] \<Longrightarrow> i \<noteq> [] \<Longrightarrow>
   finished p = None \<Longrightarrow> tables p = ts1 @ (h # pre @ row # post) # ts2 \<Longrightarrow>
   list_all (\<lambda>r. k \<notin> set (row_keys E r) \<and> i \<notin> set (row_keys E r))
     (post @ concat (map tl ts2)) \<Longrightarrow>
   fst (get_processed_data E p) = Inr d \<Longrightarrow>
   (dict_get (entries (fst (process_row E h st row))) k = Some (length (objects (fst st))) \<and>
    dict_get (entries (fst (process_row E h st row))) i = Some (length (objects (fst st))) \<and>
    objects (fst (process_row E h st row)) = objects (fst st) @ [zipped h row]) \<and>
   (\<exists>a. dict_get (entries d) k = Some a \<and> dict_get (entries d) i = Some a \<and>
        a < length (objects d) \<and> objects d ! a = zipped h row) \<and>
   lookup_record d k = Some (zipped h row) \<and> lookup_record d i = Some (zipped h row)"
proof -
  assume fk: "find_keys (str_lower E) (None, None) row = (Some k, Some i)"
    and k: "k \<noteq> []" and i: "i \<noteq> []" and f: "finished p = None"
    and t: "tables p = ts1 @ (h # pre @ row # post) # ts2"
    and later: "list_all (\<lambda>r. k \<notin> set (row_keys E r) \<and> i \<notin> set (row_keys E r))
       (post @ concat (map tl ts2))"
    and res: "fst (get_processed_data E p) = Inr d"
  have rk: "row_keys E row = [k, i]" using fk k i by (rule both_keys_step)
  have ne: "row_keys E row \<noteq> []" using rk by simp
  have step: "dict_get (entries (fst (process_row E h st row))) k = Some (length (objects (fst st))) \<and>
    dict_get (entries (fst (process_row E h st row))) i = Some (length (objects (fst st))) \<and>
    objects (fst (process_row E h st row)) = objects (fst st) @ [zipped h row]"
    using process_row_keyed [OF ne, of h st] rk by simp
  have res': "fst (process_tables E (empty_tld_data,
          [Log DEBUG ProcessedDataRequested, Log DEBUG EnsuringParsed,
           Log DEBUG ProcessingTables]) (ts1 @ (h # pre @ row # post) # ts2)) = Inr d"
    using res f t by (simp add: get_processed_data_fst)
  from both_keys_final [OF rk later res'] obtain a where
    a: "dict_get (entries d) k = Some a" "dict_get (entries d) i = Some a"
       "a < length (objects d)" "objects d ! a = zipped h row"
    by blast
  have lk: "lookup_record d k = Some (zipped h row)" and li: "lookup_record d i = Some (zipped h row)"
    using a by (simp_all add: lookup_record_def)
  from step a lk li show ?thesis by blast
qed

text \<open>Witness of C4: a row with both keys, followed by a row with a key of its own.\<close>

theorem both_keys_same_object_witness:
  "find_keys (str_lower test_ext) (None, None) [ascii ''.aa'', ascii ''xn--bb''] =
     (Some (ascii ''aa''), Some (ascii ''xn--bb'')) \<and>
   ascii ''aa'' \<noteq> [] \<and> ascii ''xn--bb'' \<noteq> [] \<and>
   list_all (\<lambda>r. ascii ''aa'' \<notin> set (row_keys test_ext r) \<and>
                 ascii ''xn--bb'' \<notin> set (row_keys test_ext r))
     ([[ascii ''.cc'', ascii ''x'']] @ concat (map tl [])) \<and>
   fst (get_processed_data test_ext
     (new_parser\<lparr>tables := [] @ ([ascii ''Name'', ascii ''IDN''] # [] @
        [ascii ''.aa'', ascii ''xn--bb''] # [[ascii ''.cc'', ascii ''x'']]) # []\<rparr>)) =
     Inr shared_data \<and>
   lookup_record shared_data (ascii ''aa'') =
     Some (zipped [ascii ''Name'', ascii ''IDN''] [ascii ''.aa'', ascii ''xn--bb'']) \<and>
   lookup_record shared_data (ascii ''xn--bb'') =
     Some (zipped [ascii ''Name'', ascii ''IDN''] [ascii ''.aa'', ascii ''xn--bb''])"
proof -
  let ?p = "new_parser\<lparr>tables := [] @ ([ascii ''Name'', ascii ''IDN''] # [] @
        [ascii ''.aa'', ascii ''xn--bb''] # [[ascii ''.cc'', ascii ''x'']]) # []\<rparr>"
  have 1: "find_keys (str_lower test_ext) (None, None) [ascii ''.aa'', ascii ''xn--bb''] =
     (Some (ascii ''aa''), Some (ascii ''xn--bb''))"
    by (simp add: index_eval)
  have 2: "ascii ''aa'' \<noteq> []" and 3: "ascii ''xn--bb'' \<noteq> []" by (simp_all add: ascii_def)
  have 4: "finished ?p = None" by (simp add: new_parser_def)
  have 5: "tables ?p = [] @ ([ascii ''Name'', ascii ''IDN''] # [] @
        [ascii ''.aa'', ascii ''xn--bb''] # [[ascii ''.cc'', ascii ''x'']]) # []"
    by simp
  have 6: "list_all (\<lambda>r. ascii ''aa'' \<notin> set (row_keys test_ext r) \<and>
                 ascii ''xn--bb'' \<notin> set (row_keys test_ext r))
     ([[ascii ''.cc'', ascii ''x'']] @ concat (map tl []))"
    by (simp add: index_eval)
  have 7: "fst (get_processed_data test_ext ?p) = Inr shared_data"
    by (simp add: index_eval shared_data_def)
  note w = both_keys_same_object [OF 1 2 3 4 5 6 7]
  from 1 2 3 6 7 w show ?thesis by blast
qed

text \<open>
  Claim C4 as the spec states it fails: the second row yields the IDNA key of the first
  again, so the two keys of the first row hold two objects, of different contents.
\<close>

theorem both_keys_counterexample:
  "find_keys (str_lower test_ext) (None, None) [ascii ''.aa'', ascii ''xn--bb''] =
     (Some (ascii ''aa''), Some (ascii ''xn--bb'')) \<and>
   fst (get_processed_data test_ext (new_parser\<lparr>tables := overwritten_tables\<rparr>)) =
     Inr overwritten_data \<and>
   dict_get (entries overwritten_data) (ascii ''aa'') = Some 0 \<and>
   dict_get (entries overwritten_data) (ascii ''xn--bb'') = Some 1 \<and>
   lookup_record overwritten_data (ascii ''aa'') =
     Some [(ascii ''Name'', ascii ''.aa''), (ascii ''IDN'', ascii ''xn--bb'')] \<and>
   lookup_record overwritten_data (ascii ''xn--bb'') =
     Some [(ascii ''Name'', ascii ''.cc''), (ascii ''IDN'', ascii ''xn--bb'')]"
  by (simp add: index_eval overwritten_tables_def overwritten_data_def)

text \<open>
  Claim C2 does not hold on the code. The \<^verbatim>\<open>try\<close> block of the data branch
  catches \<^verbatim>\<open>RequestException\<close>, \<^verbatim>\<open>ValueError\<close> and \<^verbatim>\<open>KeyError\<close>, but
  the decoding \<^verbatim>\<open>tld_response["parse"]["text"]\<close> raises \<^verbatim>\<open>TypeError\<close> for a
  reply that is not an object of objects: for the JSON array \<^verbatim>\<open>[]\<close> and for
  \<^verbatim>\<open>{"parse": "abc"}\<close> the exception leaves \<^verbatim>\<open>_update_tld_data\<close>, and for
  \<^verbatim>\<open>{"parse": {"text": 5}}\<close> the parser's \<^verbatim>\<open>feed\<close> raises it. The cache and
  its timestamp stay as they were, but the exception propagates, also out of the hourly job
  \<^verbatim>\<open>update_caches\<close>.
\<close>

theorem wrong_shape_reply_raises:
  "update_tld_data test_ext array_reply_world default_memory (ascii ''data'') =
     \<lparr>raised = Some TypeError, memory_after = default_memory, effects = [HttpGetData]\<rparr> \<and>
   update_tld_data test_ext
       (array_reply_world\<lparr>wiki := WikiJSON (JObj [(ascii ''parse'', JStr (ascii ''abc''))])\<rparr>)
       default_memory (ascii ''data'') =
     \<lparr>raised = Some TypeError, memory_after = default_memory, effects = [HttpGetData]\<rparr> \<and>
   update_tld_data test_ext
       (array_reply_world\<lparr>wiki :=
          WikiJSON (JObj [(ascii ''parse'', JObj [(ascii ''text'', JNum 5)])])\<rparr>)
       default_memory (ascii ''data'') =
     \<lparr>raised = Some TypeError, memory_after = default_memory, effects = [HttpGetData]\<rparr> \<and>
   update_caches test_ext array_reply_world array_reply_world default_memory =
     \<lparr>raised = Some TypeError, memory_after = default_memory,
      effects = [HttpGetList, Log WARNING ErrorFetchingList, HttpGetData]\<rparr>"
proof -
  have st: "\<not> days (datetime_sub (midnight 2024 6 1) (midnight 2000 1 1)) < 7"
    by (simp add: date_defs)
  have sl: "days (datetime_sub (midnight 2024 6 1) (midnight 2000 1 1)) = 8918"
    by (simp add: date_defs)
  have 1: "update_tld_data test_ext array_reply_world default_memory (ascii ''data'') =
     \<lparr>raised = Some TypeError, memory_after = default_memory, effects = [HttpGetData]\<rparr>"
    using data_is_not_list st
    by (simp add: update_tld_data_def Let_def parse_text_def array_reply_world_def
        default_memory_def)
  have 2: "update_tld_data test_ext
       (array_reply_world\<lparr>wiki := WikiJSON (JObj [(ascii ''parse'', JStr (ascii ''abc''))])\<rparr>)
       default_memory (ascii ''data'') =
     \<lparr>raised = Some TypeError, memory_after = default_memory, effects = [HttpGetData]\<rparr>"
    using data_is_not_list st
    by (simp add: update_tld_data_def Let_def parse_text_def array_reply_world_def
        default_memory_def)
  have 3: "update_tld_data test_ext
       (array_reply_world\<lparr>wiki :=
          WikiJSON (JObj [(ascii ''parse'', JObj [(ascii ''text'', JNum 5)])])\<rparr>)
       default_memory (ascii ''data'') =
     \<lparr>raised = Some TypeError, memory_after = default_memory, effects = [HttpGetData]\<rparr>"
    using data_is_not_list st
    by (simp add: update_tld_data_def Let_def parse_text_def array_reply_world_def
        default_memory_def store_tld_data_def)
  have l: "update_tld_data test_ext array_reply_world default_memory (ascii ''list'') =
     \<lparr>raised = None, memory_after = default_memory,
      effects = [HttpGetList, Log WARNING ErrorFetchingList]\<rparr>"
    using sl by (simp add: update_list_unfold array_reply_world_def default_memory_def)
  have 4: "update_caches test_ext array_reply_world array_reply_world default_memory =
     \<lparr>raised = Some TypeError, memory_after = default_memory,
      effects = [HttpGetList, Log WARNING ErrorFetchingList, HttpGetData]\<rparr>"
    by (simp add: update_caches_def Let_def l 1)
  from 1 2 3 4 show ?thesis by blast
qed

text \<open>
  Claim C5. For a token that passes the validation and whose record is not empty,
  \<^verbatim>\<open>gettld\<close> says the rendered record, and the rendered record is a stable partition
  of the record's own order: one item \<^verbatim>\<open>field: value\<close> for each field with a
  non-empty value, the fields whose name does not start with \<^verbatim>\<open>Notes\<close> or
  \<^verbatim>\<open>Comments\<close> first, then those whose name does, each group in the order of the
  record, joined with \<^verbatim>\<open>' | '\<close> and cut by the transport when it is too long. A
  record is a \<^verbatim>\<open>dict\<close>: its field names are distinct.
\<close>

theorem fields_stable_partition:
  "distinct (map fst r) \<Longrightarrow>
   items =
     map (\<lambda>fv. fst fv @ ascii '': '' @ snd fv)
       (filter (\<lambda>fv. \<not> notes_or_comments (fst fv) \<and> snd fv \<noteq> []) r) @
     map (\<lambda>fv. fst fv @ ascii '': '' @ snd fv)
       (filter (\<lambda>fv. notes_or_comments (fst fv) \<and> snd fv \<noteq> []) r) \<Longrightarrow>
   tld = normalize_tld E (c # cs) \<Longrightarrow> m1 = memory_after (ensure_list E w1 m) \<Longrightarrow>
   idna_ToASCII E tld = Some a \<Longrightarrow>
   tld \<in> set (tld_list_cache m1) \<or> a \<in> set (tld_list_cache m1) \<Longrightarrow>
   lookup_record (tld_data_cache m1) tld = Some r \<Longrightarrow> r \<noteq> [] \<Longrightarrow>
   sorted_fields r =
     filter (\<lambda>f. \<not> notes_or_comments f) (map fst r) @ filter notes_or_comments (map fst r) \<and>
   field_items r (sorted_fields r) = items \<and>
   render_record E r =
     (if snd (get_sendable_message E (join (ascii '' | '') items)) \<noteq> []
      then fst (get_sendable_message E (join (ascii '' | '') items)) @ [32, 91, 8230, 93]
      else join (ascii '' | '') items) \<and>
   gettld E w1 w2 m (Some (c # cs)) =
     \<lparr>raised = None, memory_after = m1,
      effects = effects (ensure_list E w1 m) @ [Say (render_record E r)]\<rparr>"
proof -
  assume d: "distinct (map fst r)"
    and i: "items =
     map (\<lambda>fv. fst fv @ ascii '': '' @ snd fv)
       (filter (\<lambda>fv. \<not> notes_or_comments (fst fv) \<and> snd fv \<noteq> []) r) @
     map (\<lambda>fv. fst fv @ ascii '': '' @ snd fv)
       (filter (\<lambda>fv. notes_or_comments (fst fv) \<and> snd fv \<noteq> []) r)"
    and t: "tld = normalize_tld E (c # cs)" and m1: "m1 = memory_after (ensure_list E w1 m)"
    and a: "idna_ToASCII E tld = Some a"
    and v: "tld \<in> set (tld_list_cache m1) \<or> a \<in> set (tld_list_cache m1)"
    and l: "lookup_record (tld_data_cache m1) tld = Some r" and ne: "r \<noteq> []"
  have 1: "sorted_fields r =
     filter (\<lambda>f. \<not> notes_or_comments f) (map fst r) @ filter notes_or_comments (map fst r)"
    by (simp add: sorted_fields_def sort_key_bool_partition)
  have 2: "field_items r (sorted_fields r) = items"
    unfolding 1 field_items_append i
    by (simp add: field_items_filter [OF d])
  have 3: "render_record E r =
     (if snd (get_sendable_message E (join (ascii '' | '') items)) \<noteq> []
      then fst (get_sendable_message E (join (ascii '' | '') items)) @ [32, 91, 8230, 93]
      else join (ascii '' | '') items)"
    by (simp add: render_record_def Let_def 2)
  have en: "entries (tld_data_cache m1) \<noteq> []" using l by (rule lookup_some_entries)
  have r: "respond E (tld_data_cache m1) tld = Say (render_record E r)"
    using l ne by (simp add: respond_def)
  have va: "validate_and_answer E w2 m1 fx tld =
      \<lparr>raised = None, memory_after = m1, effects = fx @ [Say (render_record E r)]\<rparr>" for fx
    using a v en r by (auto simp: validate_and_answer_def ensure_data_def Let_def)
  have 4: "gettld E w1 w2 m (Some (c # cs)) =
     \<lparr>raised = None, memory_after = m1,
      effects = effects (ensure_list E w1 m) @ [Say (render_record E r)]\<rparr>"
    using ensure_list_never_raises [of E w1 m] va t m1
    by (simp add: gettld_def resolve_token_def Let_def)
  from 1 2 3 4 show ?thesis by blast
qed

text \<open>
  Witness of C5: the query \<^verbatim>\<open>.RU\<close> on a record whose fields are Notes, Sponsor,
  Comments and Type, in that order.
\<close>

theorem fields_stable_partition_witness:
  "distinct (map fst ru_record) \<and>
   ascii ''ru'' = normalize_tld test_ext (46 # [82, 85]) \<and>
   ru_memory = memory_after (ensure_list test_ext next_day_world ru_memory) \<and>
   idna_ToASCII test_ext (ascii ''ru'') = Some (ascii ''ru'') \<and>
   ascii ''ru'' \<in> set (tld_list_cache ru_memory) \<and>
   lookup_record (tld_data_cache ru_memory) (ascii ''ru'') = Some ru_record \<and>
   ru_record \<noteq> [] \<and>
   sorted_fields ru_record =
     [ascii ''Sponsor'', ascii ''Type'', ascii ''Notes'', ascii ''Comments''] \<and>
   field_items ru_record (sorted_fields ru_record) =
     [ascii ''Sponsor: s1'', ascii ''Type: t1'', ascii ''Notes: n1'', ascii ''Comments: c1''] \<and>
   render_record test_ext ru_record =
     ascii ''Sponsor: s1 | Type: t1 | Notes: n1 | Comments: c1'' \<and>
   gettld test_ext next_day_world next_day_world ru_memory (Some (46 # [82, 85])) =
     \<lparr>raised = None, memory_after = ru_memory,
      effects = effects (ensure_list test_ext next_day_world ru_memory) @
        [Say (render_record test_ext ru_record)]\<rparr>"
proof -
  let ?items = "[ascii ''Sponsor: s1'', ascii ''Type: t1'', ascii ''Notes: n1'',
                 ascii ''Comments: c1'']"
  have 1: "distinct (map fst ru_record)" by (simp add: ru_record_def ascii_def)
  have 2: "?items =
     map (\<lambda>fv. fst fv @ ascii '': '' @ snd fv)
       (filter (\<lambda>fv. \<not> notes_or_comments (fst fv) \<and> snd fv \<noteq> []) ru_record) @
     map (\<lambda>fv. fst fv @ ascii '': '' @ snd fv)
       (filter (\<lambda>fv. notes_or_comments (fst fv) \<and> snd fv \<noteq> []) ru_record)"
    by (simp add: ru_record_def notes_or_comments_def startswith_def ascii_def)
  have 3: "ascii ''ru'' = normalize_tld test_ext (46 # [82, 85])"
    by (simp add: normalize_tld_def test_ext_def lower_ascii_def strip_chars_def ascii_def)
  have 4: "ru_memory = memory_after (ensure_list test_ext next_day_world ru_memory)"
    by (simp add: ensure_list_def ru_memory_def)
  have 5: "idna_ToASCII test_ext (ascii ''ru'') = Some (ascii ''ru'')"
    by (simp add: test_ext_def toascii_ascii_def ascii_def)
  have 6: "ascii ''ru'' \<in> set (tld_list_cache ru_memory)" by (simp add: ru_memory_def)
  have 7: "lookup_record (tld_data_cache ru_memory) (ascii ''ru'') = Some ru_record"
    by (simp add: ru_memory_def lookup_record_def dict_get_def)
  have 8: "ru_record \<noteq> []" by (simp add: ru_record_def)
  note w = fields_stable_partition [OF 1 2 3 4 5 disjI1 [OF 6] 7 8,
      where ?w2.0 = next_day_world]
  have s: "sorted_fields ru_record =
     [ascii ''Sponsor'', ascii ''Type'', ascii ''Notes'', ascii ''Comments'']"
    using w by (simp add: ru_record_def notes_or_comments_def startswith_def ascii_def)
  have f: "field_items ru_record (sorted_fields ru_record) = ?items" using w by blast
  have r: "render_record test_ext ru_record =
     ascii ''Sponsor: s1 | Type: t1 | Notes: n1 | Comments: c1''"
    using w by (simp add: test_ext_def ascii_def)
  have g: "gettld test_ext next_day_world next_day_world ru_memory (Some (46 # [82, 85])) =
     \<lparr>raised = None, memory_after = ru_memory,
      effects = effects (ensure_list test_ext next_day_world ru_memory) @
        [Say (render_record test_ext ru_record)]\<rparr>"
    using w by blast
  from 1 3 4 5 6 7 8 s f r g show ?thesis by blast
qed

end
